theory Spec2Isabelle
  imports Complex_Main "HOL-Library.Word"
begin

section \<open>Video dithering tool: the pixel-quantization engine\<close>

text \<open>
  A shallow embedding of \<^verbatim>\<open>video_dithering.py\<close>: the five dithering functions
  (Floyd-Steinberg, Atkinson, Jarvis-Judice-Ninke, ordered, random) and the dispatcher
  \<^verbatim>\<open>apply_dithering\<close>.

  Modelling decisions.
  \<^item> A NumPy array of shape \<open>(h, w)\<close> is a list of \<open>h\<close> rows; an array of shape
    \<open>(h, w, 3)\<close> is a list of rows of triples. NumPy arrays are rectangular, which the
    theorems assume as \<open>rect h w img\<close>.
  \<^item> Subscripts are Python integers (\<open>int\<close>): NumPy accepts an index \<open>i\<close> with
    \<open>-n \<le> i < n\<close>, a negative one counting from the end, and raises IndexError otherwise.
  \<^item> The accumulator \<^verbatim>\<open>img = image.astype(np.float32)\<close> holds exact real numbers
    here: rounding of the float arithmetic is not modelled.
  \<^item> Statements that mutate the accumulator are state transformers that return the
    exception raised, if any, together with the accumulator as it then is.
  \<^item> The random sources are parameters: the value of \<^verbatim>\<open>random()\<close> drawn at each pixel.
\<close>

subsection \<open>Exceptions, statements and loops\<close>

datatype py_error = ValueError | IndexError | ZeroDivisionError | TypeError

type_synonym 's stmt = "'s \<Rightarrow> py_error option \<times> 's"

text \<open>A block of statements runs them in order and stops at the first one that raises.\<close>

fun block :: "'s stmt list \<Rightarrow> 's stmt" where
  "block [] s = (None, s)"
| "block (c # cs) s = (case c s of (None, s') \<Rightarrow> block cs s' | (Some e, s') \<Rightarrow> (Some e, s'))"

text \<open>\<^verbatim>\<open>if b: c\<close>\<close>

definition when_do :: "bool \<Rightarrow> 's stmt \<Rightarrow> 's stmt" where
  "when_do b c s = (if b then c s else (None, s))"

text \<open>\<^verbatim>\<open>for i in range(n): body\<close>\<close>

definition for_range :: "int \<Rightarrow> (int \<Rightarrow> 's stmt) \<Rightarrow> 's stmt" where
  "for_range n body = block (map body [0..n - 1])"

subsection \<open>Arrays\<close>

type_synonym 'a grid = "'a list list"

text \<open>\<^verbatim>\<open>h, w = img.shape\<close>; an array without rows is given width 0, and no loop body
  runs on it.\<close>

definition shape :: "'a grid \<Rightarrow> int \<times> int" where
  "shape img = (int (length img), (case img of [] \<Rightarrow> 0 | r # _ \<Rightarrow> int (length r)))"

text \<open>NumPy's index normalisation along an axis of length \<open>n\<close>.\<close>

definition norm_index :: "nat \<Rightarrow> int \<Rightarrow> py_error + nat" where
  "norm_index n i =
     (if 0 \<le> i \<and> i < int n then Inr (nat i)
      else if - int n \<le> i \<and> i < 0 then Inr (nat (i + int n))
      else Inl IndexError)"

text \<open>\<^verbatim>\<open>img[y, x]\<close>\<close>

definition getitem :: "'a grid \<Rightarrow> int \<Rightarrow> int \<Rightarrow> py_error + 'a" where
  "getitem img y x =
     (case norm_index (length img) y of
        Inl e \<Rightarrow> Inl e
      | Inr j \<Rightarrow>
          (case norm_index (length (img ! j)) x of
             Inl e \<Rightarrow> Inl e
           | Inr i \<Rightarrow> Inr (img ! j ! i)))"

text \<open>\<^verbatim>\<open>img[y, x] = v\<close>\<close>

definition setitem :: "int \<Rightarrow> int \<Rightarrow> 'a \<Rightarrow> 'a grid stmt" where
  "setitem y x v img =
     (case norm_index (length img) y of
        Inl e \<Rightarrow> (Some e, img)
      | Inr j \<Rightarrow>
          (case norm_index (length (img ! j)) x of
             Inl e \<Rightarrow> (Some e, img)
           | Inr i \<Rightarrow> (None, img[j := (img ! j)[i := v]])))"

text \<open>\<^verbatim>\<open>img[y, x] = f(img[y, x])\<close>, the shape of every \<^verbatim>\<open>img[y, x] += e\<close>.\<close>

definition moditem :: "int \<Rightarrow> int \<Rightarrow> ('a \<Rightarrow> 'a) \<Rightarrow> 'a grid stmt" where
  "moditem y x f img =
     (case getitem img y x of
        Inl e \<Rightarrow> (Some e, img)
      | Inr v \<Rightarrow> setitem y x (f v) img)"

subsection \<open>Pixels\<close>

type_synonym u8 = "8 word"
type_synonym rgb8 = "u8 \<times> u8 \<times> u8"
type_synonym rgb = "real \<times> real \<times> real"
type_synonym color = "int \<times> int \<times> int"
type_synonym palette = "color list"

datatype raster = Gray "u8 grid" | Color "rgb8 grid"

text \<open>\<^verbatim>\<open>image.astype(np.float32)\<close>\<close>

definition astype_float :: "u8 grid \<Rightarrow> real grid" where
  "astype_float image_in = map (map (\<lambda>v. real (unat v))) image_in"

definition astype_float3 :: "rgb8 grid \<Rightarrow> rgb grid" where
  "astype_float3 image_in =
     map (map (\<lambda>(r, g, b). (real (unat r), real (unat g), real (unat b)))) image_in"

text \<open>\<^verbatim>\<open>np.clip(v, 0, 255)\<close> and the conversion to \<^verbatim>\<open>np.uint8\<close>, which truncates.\<close>

definition clip :: "real \<Rightarrow> real" where
  "clip v = min (max v 0) 255"

definition to_uint8 :: "real \<Rightarrow> u8" where
  "to_uint8 v = word_of_int \<lfloor>clip v\<rfloor>"

definition clip_uint8 :: "real grid \<Rightarrow> u8 grid" where
  "clip_uint8 img = map (map to_uint8) img"

definition clip_uint8_3 :: "rgb grid \<Rightarrow> rgb8 grid" where
  "clip_uint8_3 img = map (map (\<lambda>(r, g, b). (to_uint8 r, to_uint8 g, to_uint8 b))) img"

text \<open>Arithmetic on the three channels of a pixel.\<close>

fun vadd :: "rgb \<Rightarrow> rgb \<Rightarrow> rgb" where
  "vadd (a, b, c) (a', b', c') = (a + a', b + b', c + c')"

fun vsub :: "rgb \<Rightarrow> rgb \<Rightarrow> rgb" where
  "vsub (a, b, c) (a', b', c') = (a - a', b - b', c - c')"

fun vscale :: "rgb \<Rightarrow> real \<Rightarrow> rgb" where
  "vscale (a, b, c) k = (a * k, b * k, c * k)"

fun vdiv :: "rgb \<Rightarrow> real \<Rightarrow> rgb" where
  "vdiv (a, b, c) k = (a / k, b / k, c / k)"

fun vclip :: "rgb \<Rightarrow> rgb" where
  "vclip (a, b, c) = (clip a, clip b, clip c)"

text \<open>\<^verbatim>\<open>np.linalg.norm\<close> and \<^verbatim>\<open>np.mean\<close> of a pixel\<close>

fun norm3 :: "rgb \<Rightarrow> real" where
  "norm3 (a, b, c) = sqrt (a * a + b * b + c * c)"

fun mean3 :: "rgb \<Rightarrow> real" where
  "mean3 (a, b, c) = (a + b + c) / 3"

text \<open>\<^verbatim>\<open>np.array(color)\<close>\<close>

fun np_array :: "color \<Rightarrow> rgb" where
  "np_array (r, g, b) = (real_of_int r, real_of_int g, real_of_int b)"

definition default_palette :: palette where
  "default_palette =
     [(0, 0, 0), (255, 255, 255), (255, 0, 0), (0, 255, 0),
      (0, 0, 255), (255, 255, 0), (255, 0, 255), (0, 255, 255)]"

text \<open>\<^verbatim>\<open>np.argmin\<close>: the index of the first least element; ValueError on an empty
  sequence.\<close>

fun argmin_from :: "real list \<Rightarrow> nat \<Rightarrow> nat \<Rightarrow> real \<Rightarrow> nat" where
  "argmin_from [] i best m = best"
| "argmin_from (d # ds) i best m =
     (if d < m then argmin_from ds (Suc i) i d else argmin_from ds (Suc i) best m)"

definition argmin :: "real list \<Rightarrow> py_error + nat" where
  "argmin ds = (case ds of [] \<Rightarrow> Inl ValueError | d # ds' \<Rightarrow> Inr (argmin_from ds' 1 0 d))"

text \<open>
  \<^verbatim>\<open>distances = [np.linalg.norm(old_pixel - np.array(color)) for color in palette]\<close>
  \<^verbatim>\<open>new_pixel = np.array(palette[np.argmin(distances)], dtype=np.float32)\<close>
\<close>

definition distances :: "palette \<Rightarrow> rgb \<Rightarrow> real list" where
  "distances palette old_pixel = map (\<lambda>color. norm3 (vsub old_pixel (np_array color))) palette"

definition nearest :: "palette \<Rightarrow> rgb \<Rightarrow> py_error + rgb" where
  "nearest palette old_pixel =
     (case argmin (distances palette old_pixel) of
        Inl e \<Rightarrow> Inl e
      | Inr i \<Rightarrow> Inr (np_array (palette ! i)))"

text \<open>The palette in force in color mode: the default one when none is given.\<close>

definition active_palette :: "palette option \<Rightarrow> palette" where
  "active_palette palette = (case palette of None \<Rightarrow> default_palette | Some p \<Rightarrow> p)"

subsection \<open>Floyd-Steinberg\<close>

definition fs_gray_body :: "real \<Rightarrow> int \<Rightarrow> int \<Rightarrow> int \<Rightarrow> int \<Rightarrow> real grid stmt" where
  "fs_gray_body dither_strength h w y x img =
     (case getitem img y x of
        Inl e \<Rightarrow> (Some e, img)
      | Inr old_pixel \<Rightarrow>
          let new_pixel = (if old_pixel > 128 then 255 else 0);
              error = (old_pixel - new_pixel) * dither_strength
          in block
               [setitem y x new_pixel,
                when_do (x + 1 < w) (moditem y (x + 1) (\<lambda>v. v + error * 7 / 16)),
                when_do (y + 1 < h) (block
                  [when_do (x > 0) (moditem (y + 1) (x - 1) (\<lambda>v. v + error * 3 / 16)),
                   moditem (y + 1) x (\<lambda>v. v + error * 5 / 16),
                   when_do (x + 1 < w) (moditem (y + 1) (x + 1) (\<lambda>v. v + error * 1 / 16))])]
               img)"

definition fs_color_body :: "palette \<Rightarrow> real \<Rightarrow> int \<Rightarrow> int \<Rightarrow> int \<Rightarrow> int \<Rightarrow> rgb grid stmt" where
  "fs_color_body palette dither_strength h w y x img =
     (case getitem img y x of
        Inl e \<Rightarrow> (Some e, img)
      | Inr old_pixel \<Rightarrow>
          (case nearest palette old_pixel of
             Inl e \<Rightarrow> (Some e, img)
           | Inr new_pixel \<Rightarrow>
               let error = vscale (vsub old_pixel new_pixel) dither_strength
               in block
                    [setitem y x new_pixel,
                     when_do (x + 1 < w)
                       (moditem y (x + 1) (\<lambda>v. vadd v (vdiv (vscale error 7) 16))),
                     when_do (y + 1 < h) (block
                       [when_do (x > 0)
                          (moditem (y + 1) (x - 1) (\<lambda>v. vadd v (vdiv (vscale error 3) 16))),
                        moditem (y + 1) x (\<lambda>v. vadd v (vdiv (vscale error 5) 16)),
                        when_do (x + 1 < w)
                          (moditem (y + 1) (x + 1) (\<lambda>v. vadd v (vdiv (vscale error 1) 16)))])]
                    img))"

text \<open>The two scans of a dithering function and its return statement: the accumulator
  is scanned row by row, and the function returns the clipped accumulator unless a
  statement raised.\<close>

definition scan :: "'a grid \<Rightarrow> (int \<Rightarrow> int \<Rightarrow> int \<Rightarrow> int \<Rightarrow> 'a grid stmt) \<Rightarrow> py_error option \<times> 'a grid" where
  "scan img body =
     (let (h, w) = shape img
      in for_range h (\<lambda>y. for_range w (\<lambda>x. body h w y x)) img)"

definition run_gray :: "u8 grid \<Rightarrow> (int \<Rightarrow> int \<Rightarrow> int \<Rightarrow> int \<Rightarrow> real grid stmt) \<Rightarrow> py_error + raster" where
  "run_gray image_in body =
     (case scan (astype_float image_in) body of
        (Some e, img) \<Rightarrow> Inl e
      | (None, img) \<Rightarrow> Inr (Gray (clip_uint8 img)))"

definition run_color :: "rgb8 grid \<Rightarrow> (int \<Rightarrow> int \<Rightarrow> int \<Rightarrow> int \<Rightarrow> rgb grid stmt) \<Rightarrow> py_error + raster" where
  "run_color image_in body =
     (case scan (astype_float3 image_in) body of
        (Some e, img) \<Rightarrow> Inl e
      | (None, img) \<Rightarrow> Inr (Color (clip_uint8_3 img)))"

text \<open>A dithering function unpacks \<^verbatim>\<open>img.shape\<close> into three names in color mode and
  into two otherwise, which raises ValueError on an array of the other rank.\<close>

definition dither :: "raster \<Rightarrow> bool \<Rightarrow> (int \<Rightarrow> int \<Rightarrow> int \<Rightarrow> int \<Rightarrow> rgb grid stmt) \<Rightarrow>
    (int \<Rightarrow> int \<Rightarrow> int \<Rightarrow> int \<Rightarrow> real grid stmt) \<Rightarrow> py_error + raster" where
  "dither image_in is_color color_body gray_body =
     (if is_color then
        (case image_in of Color g \<Rightarrow> run_color g color_body | Gray g \<Rightarrow> Inl ValueError)
      else
        (case image_in of Gray g \<Rightarrow> run_gray g gray_body | Color g \<Rightarrow> Inl ValueError))"

definition floyd_steinberg_dither :: "raster \<Rightarrow> real \<Rightarrow> bool \<Rightarrow> palette option \<Rightarrow> py_error + raster" where
  "floyd_steinberg_dither image_in dither_strength is_color palette =
     dither image_in is_color
       (fs_color_body (active_palette palette) dither_strength)
       (fs_gray_body dither_strength)"

subsection \<open>Atkinson\<close>

definition atkinson_gray_body :: "real \<Rightarrow> int \<Rightarrow> int \<Rightarrow> int \<Rightarrow> int \<Rightarrow> real grid stmt" where
  "atkinson_gray_body dither_strength h w y x img =
     (case getitem img y x of
        Inl e \<Rightarrow> (Some e, img)
      | Inr old_pixel \<Rightarrow>
          let new_pixel = (if old_pixel > 128 then 255 else 0);
              error = (old_pixel - new_pixel) * dither_strength / 8
          in block
               [setitem y x new_pixel,
                when_do (x + 1 < w) (moditem y (x + 1) (\<lambda>v. v + error)),
                when_do (x + 2 < w) (moditem y (x + 2) (\<lambda>v. v + error)),
                when_do (y + 1 < h) (block
                  [when_do (x > 0) (moditem (y + 1) (x - 1) (\<lambda>v. v + error)),
                   moditem (y + 1) x (\<lambda>v. v + error),
                   when_do (x + 1 < w) (moditem (y + 1) (x + 1) (\<lambda>v. v + error))]),
                when_do (y + 2 < h) (moditem (y + 2) x (\<lambda>v. v + error))]
               img)"

definition atkinson_color_body :: "palette \<Rightarrow> real \<Rightarrow> int \<Rightarrow> int \<Rightarrow> int \<Rightarrow> int \<Rightarrow> rgb grid stmt" where
  "atkinson_color_body palette dither_strength h w y x img =
     (case getitem img y x of
        Inl e \<Rightarrow> (Some e, img)
      | Inr old_pixel \<Rightarrow>
          (case nearest palette old_pixel of
             Inl e \<Rightarrow> (Some e, img)
           | Inr new_pixel \<Rightarrow>
               let error = vdiv (vscale (vsub old_pixel new_pixel) dither_strength) 8
               in block
                    [setitem y x new_pixel,
                     when_do (x + 1 < w) (moditem y (x + 1) (\<lambda>v. vadd v error)),
                     when_do (x + 2 < w) (moditem y (x + 2) (\<lambda>v. vadd v error)),
                     when_do (y + 1 < h) (block
                       [when_do (x > 0) (moditem (y + 1) (x - 1) (\<lambda>v. vadd v error)),
                        moditem (y + 1) x (\<lambda>v. vadd v error),
                        when_do (x + 1 < w) (moditem (y + 1) (x + 1) (\<lambda>v. vadd v error))]),
                     when_do (y + 2 < h) (moditem (y + 2) x (\<lambda>v. vadd v error))]
                    img))"

definition atkinson_dither :: "raster \<Rightarrow> real \<Rightarrow> bool \<Rightarrow> palette option \<Rightarrow> py_error + raster" where
  "atkinson_dither image_in dither_strength is_color palette =
     dither image_in is_color
       (atkinson_color_body (active_palette palette) dither_strength)
       (atkinson_gray_body dither_strength)"

subsection \<open>Jarvis-Judice-Ninke\<close>

definition jjn_gray_body :: "real \<Rightarrow> int \<Rightarrow> int \<Rightarrow> int \<Rightarrow> int \<Rightarrow> real grid stmt" where
  "jjn_gray_body dither_strength h w y x img =
     (case getitem img y x of
        Inl e \<Rightarrow> (Some e, img)
      | Inr old_pixel \<Rightarrow>
          let new_pixel = (if old_pixel > 128 then 255 else 0);
              error = (old_pixel - new_pixel) * dither_strength
          in block
               [setitem y x new_pixel,
                when_do (x + 1 < w) (moditem y (x + 1) (\<lambda>v. v + error * 7 / 48)),
                when_do (x + 2 < w) (moditem y (x + 2) (\<lambda>v. v + error * 5 / 48)),
                when_do (y + 1 < h) (block
                  [when_do (x > 1) (moditem (y + 1) (x - 2) (\<lambda>v. v + error * 3 / 48)),
                   when_do (x > 0) (moditem (y + 1) (x - 1) (\<lambda>v. v + error * 5 / 48)),
                   moditem (y + 1) x (\<lambda>v. v + error * 7 / 48),
                   when_do (x + 1 < w) (moditem (y + 1) (x + 1) (\<lambda>v. v + error * 5 / 48)),
                   when_do (x + 2 < w) (moditem (y + 1) (x + 2) (\<lambda>v. v + error * 3 / 48))]),
                when_do (y + 2 < h) (block
                  [when_do (x > 1) (moditem (y + 2) (x - 2) (\<lambda>v. v + error * 1 / 48)),
                   when_do (x > 0) (moditem (y + 2) (x - 1) (\<lambda>v. v + error * 3 / 48)),
                   moditem (y + 2) x (\<lambda>v. v + error * 5 / 48),
                   when_do (x + 1 < w) (moditem (y + 2) (x + 1) (\<lambda>v. v + error * 3 / 48)),
                   when_do (x + 2 < w) (moditem (y + 2) (x + 2) (\<lambda>v. v + error * 1 / 48))])]
               img)"

definition jjn_color_body :: "palette \<Rightarrow> real \<Rightarrow> int \<Rightarrow> int \<Rightarrow> int \<Rightarrow> int \<Rightarrow> rgb grid stmt" where
  "jjn_color_body palette dither_strength h w y x img =
     (case getitem img y x of
        Inl e \<Rightarrow> (Some e, img)
      | Inr old_pixel \<Rightarrow>
          (case nearest palette old_pixel of
             Inl e \<Rightarrow> (Some e, img)
           | Inr new_pixel \<Rightarrow>
               let error = vscale (vsub old_pixel new_pixel) dither_strength;
                   part = (\<lambda>k v. vadd v (vdiv (vscale error k) 48))
               in block
                    [setitem y x new_pixel,
                     when_do (x + 1 < w) (moditem y (x + 1) (part 7)),
                     when_do (x + 2 < w) (moditem y (x + 2) (part 5)),
                     when_do (y + 1 < h) (block
                       [when_do (x > 1) (moditem (y + 1) (x - 2) (part 3)),
                        when_do (x > 0) (moditem (y + 1) (x - 1) (part 5)),
                        moditem (y + 1) x (part 7),
                        when_do (x + 1 < w) (moditem (y + 1) (x + 1) (part 5)),
                        when_do (x + 2 < w) (moditem (y + 1) (x + 2) (part 3))]),
                     when_do (y + 2 < h) (block
                       [when_do (x > 1) (moditem (y + 2) (x - 2) (part 1)),
                        when_do (x > 0) (moditem (y + 2) (x - 1) (part 3)),
                        moditem (y + 2) x (part 5),
                        when_do (x + 1 < w) (moditem (y + 2) (x + 1) (part 3)),
                        when_do (x + 2 < w) (moditem (y + 2) (x + 2) (part 1))])]
                    img))"

definition jarvis_judice_ninke_dither :: "raster \<Rightarrow> real \<Rightarrow> bool \<Rightarrow> palette option \<Rightarrow> py_error + raster" where
  "jarvis_judice_ninke_dither image_in dither_strength is_color palette =
     dither image_in is_color
       (jjn_color_body (active_palette palette) dither_strength)
       (jjn_gray_body dither_strength)"

subsection \<open>Ordered dithering\<close>

definition bayer2 :: "int grid" where
  "bayer2 = [[0, 2], [3, 1]]"

definition bayer4 :: "int grid" where
  "bayer4 =
     [[0, 8, 2, 10],
      [12, 4, 14, 6],
      [3, 11, 1, 9],
      [15, 7, 13, 5]]"

definition bayer8 :: "int grid" where
  "bayer8 =
     [[0, 32, 8, 40, 2, 34, 10, 42],
      [48, 16, 56, 24, 50, 18, 58, 26],
      [12, 44, 4, 36, 14, 46, 6, 38],
      [60, 28, 52, 20, 62, 30, 54, 22],
      [3, 35, 11, 43, 1, 33, 9, 41],
      [51, 19, 59, 27, 49, 17, 57, 25],
      [15, 47, 7, 39, 13, 45, 5, 37],
      [63, 31, 55, 23, 61, 29, 53, 21]]"

text \<open>\<^verbatim>\<open>np.array(m) / d\<close>\<close>

definition divide_by :: "int grid \<Rightarrow> real \<Rightarrow> real grid" where
  "divide_by m d = map (map (\<lambda>v. real_of_int v / d)) m"

definition bayer_matrix :: "int \<Rightarrow> real grid" where
  "bayer_matrix matrix_size =
     (if matrix_size = 2 then divide_by bayer2 4
      else if matrix_size = 4 then divide_by bayer4 16
      else divide_by bayer8 64)"

text \<open>Python's \<^verbatim>\<open>a % b\<close> on integers: the sign of the divisor, ZeroDivisionError
  for \<open>b = 0\<close>.\<close>

definition py_mod :: "int \<Rightarrow> int \<Rightarrow> py_error + int" where
  "py_mod a b = (if b = 0 then Inl ZeroDivisionError else Inr (a mod b))"

text \<open>\<^verbatim>\<open>threshold = bayer_matrix[y % matrix_size, x % matrix_size] * 255\<close>\<close>

definition threshold_at :: "int \<Rightarrow> int \<Rightarrow> int \<Rightarrow> py_error + real" where
  "threshold_at matrix_size y x =
     (case py_mod y matrix_size of
        Inl e \<Rightarrow> Inl e
      | Inr i \<Rightarrow>
          (case py_mod x matrix_size of
             Inl e \<Rightarrow> Inl e
           | Inr j \<Rightarrow>
               (case getitem (bayer_matrix matrix_size) i j of
                  Inl e \<Rightarrow> Inl e
                | Inr b \<Rightarrow> Inr (b * 255))))"

definition ordered_gray_body :: "int \<Rightarrow> int \<Rightarrow> int \<Rightarrow> real grid stmt" where
  "ordered_gray_body matrix_size y x img =
     (case threshold_at matrix_size y x of
        Inl e \<Rightarrow> (Some e, img)
      | Inr threshold \<Rightarrow> moditem y x (\<lambda>v. if v > threshold then 255 else 0) img)"

definition ordered_color_body :: "palette \<Rightarrow> int \<Rightarrow> int \<Rightarrow> int \<Rightarrow> rgb grid stmt" where
  "ordered_color_body palette matrix_size y x img =
     (case threshold_at matrix_size y x of
        Inl e \<Rightarrow> (Some e, img)
      | Inr threshold \<Rightarrow>
          (case getitem img y x of
             Inl e \<Rightarrow> (Some e, img)
           | Inr old_pixel \<Rightarrow>
               (case (if length palette = 2 then
                        (let gray_val = mean3 old_pixel
                         in Inr (np_array (if gray_val > threshold then palette ! 1 else palette ! 0)))
                      else nearest palette old_pixel) of
                  Inl e \<Rightarrow> (Some e, img)
                | Inr new_pixel \<Rightarrow> setitem y x new_pixel img)))"

definition ordered_dither :: "raster \<Rightarrow> int \<Rightarrow> bool \<Rightarrow> palette option \<Rightarrow> py_error + raster" where
  "ordered_dither image_in matrix_size is_color palette =
     dither image_in is_color
       (\<lambda>h w. ordered_color_body (active_palette palette) matrix_size)
       (\<lambda>h w. ordered_gray_body matrix_size)"

subsection \<open>Random dithering\<close>

text \<open>\<^verbatim>\<open>uniform(a, b)\<close> is \<open>a + (b - a) * u\<close> for the value \<open>u\<close> that \<^verbatim>\<open>random()\<close>
  returns. The values drawn at pixel \<open>(y, x)\<close> are the parameters \<open>py_random y x\<close>
  (module \<^verbatim>\<open>random\<close>, grayscale) and \<open>np_random y x\<close> (\<^verbatim>\<open>np.random\<close>, three values,
  color).\<close>

definition uniform :: "real \<Rightarrow> real \<Rightarrow> real \<Rightarrow> real" where
  "uniform a b u = a + (b - a) * u"

definition random_gray_body :: "(int \<Rightarrow> int \<Rightarrow> real) \<Rightarrow> real \<Rightarrow> int \<Rightarrow> int \<Rightarrow> real grid stmt" where
  "random_gray_body py_random threshold_variance y x img =
     (let threshold = 128 + uniform (- threshold_variance) threshold_variance (py_random y x)
      in moditem y x (\<lambda>v. if v > threshold then 255 else 0) img)"

definition random_color_body :: "(int \<Rightarrow> int \<Rightarrow> rgb) \<Rightarrow> palette \<Rightarrow> real \<Rightarrow> int \<Rightarrow> int \<Rightarrow> rgb grid stmt" where
  "random_color_body np_random palette threshold_variance y x img =
     (case getitem img y x of
        Inl e \<Rightarrow> (Some e, img)
      | Inr old_pixel \<Rightarrow>
          (let (u1, u2, u3) = np_random y x;
               noise = (uniform (- threshold_variance) threshold_variance u1,
                        uniform (- threshold_variance) threshold_variance u2,
                        uniform (- threshold_variance) threshold_variance u3);
               noisy_pixel = vclip (vadd old_pixel noise)
           in case nearest palette noisy_pixel of
                Inl e \<Rightarrow> (Some e, img)
              | Inr new_pixel \<Rightarrow> setitem y x new_pixel img))"

definition random_dither :: "(int \<Rightarrow> int \<Rightarrow> real) \<Rightarrow> (int \<Rightarrow> int \<Rightarrow> rgb) \<Rightarrow>
    raster \<Rightarrow> real \<Rightarrow> bool \<Rightarrow> palette option \<Rightarrow> py_error + raster" where
  "random_dither py_random np_random image_in threshold_variance is_color palette =
     dither image_in is_color
       (\<lambda>h w. random_color_body np_random (active_palette palette) threshold_variance)
       (\<lambda>h w. random_gray_body py_random threshold_variance)"

subsection \<open>The dispatcher\<close>

text \<open>The keyword arguments that \<^verbatim>\<open>apply_dithering\<close> passes on. A dithering function
  called with a keyword it does not have raises TypeError; a keyword left out takes the
  default of the function's signature.\<close>

record kwargs =
  kw_dither_strength :: "real option"
  kw_matrix_size :: "int option"
  kw_threshold_variance :: "real option"
  kw_palette :: "palette option"

definition or_default :: "'a option \<Rightarrow> 'a \<Rightarrow> 'a" where
  "or_default v d = (case v of None \<Rightarrow> d | Some a \<Rightarrow> a)"

definition apply_dithering :: "(int \<Rightarrow> int \<Rightarrow> real) \<Rightarrow> (int \<Rightarrow> int \<Rightarrow> rgb) \<Rightarrow>
    raster \<Rightarrow> string \<Rightarrow> bool \<Rightarrow> kwargs \<Rightarrow> py_error + raster" where
  "apply_dithering py_random np_random image_in method is_color kw =
     (if method = ''floyd_steinberg'' then
        (if kw_matrix_size kw \<noteq> None \<or> kw_threshold_variance kw \<noteq> None then Inl TypeError
         else floyd_steinberg_dither image_in (or_default (kw_dither_strength kw) 1)
                is_color (kw_palette kw))
      else if method = ''atkinson'' then
        (if kw_matrix_size kw \<noteq> None \<or> kw_threshold_variance kw \<noteq> None then Inl TypeError
         else atkinson_dither image_in (or_default (kw_dither_strength kw) 1)
                is_color (kw_palette kw))
      else if method = ''jarvis_judice_ninke'' then
        (if kw_matrix_size kw \<noteq> None \<or> kw_threshold_variance kw \<noteq> None then Inl TypeError
         else jarvis_judice_ninke_dither image_in (or_default (kw_dither_strength kw) 1)
                is_color (kw_palette kw))
      else if method = ''ordered'' then
        (if kw_dither_strength kw \<noteq> None \<or> kw_threshold_variance kw \<noteq> None then Inl TypeError
         else ordered_dither image_in (or_default (kw_matrix_size kw) 4)
                is_color (kw_palette kw))
      else if method = ''random'' then
        (if kw_dither_strength kw \<noteq> None \<or> kw_matrix_size kw \<noteq> None then Inl TypeError
         else random_dither py_random np_random image_in
                (or_default (kw_threshold_variance kw) 50) is_color (kw_palette kw))
      else Inl ValueError)"

subsection \<open>The functions on a store\<close>

text \<open>
  The functions above compute on values. To state what a call does to the arrays of its
  caller, the same functions are given on a store that maps addresses to arrays: the
  argument is the address of the input, \<^verbatim>\<open>image.astype(np.float32)\<close> allocates the
  accumulator, each statement of the loop body reads and writes the accumulator's cell,
  \<^verbatim>\<open>np.clip\<close> and \<^verbatim>\<open>astype(np.uint8)\<close> allocate an array each, and the result is
  the address of the last one. A statement that raises leaves the store as it then is.
\<close>

datatype ndarray = Raster raster | Acc "real grid" | AccC "rgb grid"

record heap =
  cells :: "nat \<Rightarrow> ndarray option"
  next_addr :: nat

definition alloc :: "ndarray \<Rightarrow> heap \<Rightarrow> nat \<times> heap" where
  "alloc v st =
     (next_addr st, \<lparr>cells = (cells st)(next_addr st \<mapsto> v), next_addr = Suc (next_addr st)\<rparr>)"

fun as_acc :: "ndarray \<Rightarrow> real grid option" where
  "as_acc (Acc g) = Some g"
| "as_acc v = None"

fun as_accC :: "ndarray \<Rightarrow> rgb grid option" where
  "as_accC (AccC g) = Some g"
| "as_accC v = None"

definition on_cell :: "(ndarray \<Rightarrow> 'g option) \<Rightarrow> ('g \<Rightarrow> ndarray) \<Rightarrow> nat \<Rightarrow> 'g stmt \<Rightarrow> heap stmt" where
  "on_cell rd wr a c st =
     (case cells st a of
        None \<Rightarrow> (Some TypeError, st)
      | Some v \<Rightarrow>
          (case rd v of
             None \<Rightarrow> (Some TypeError, st)
           | Some g \<Rightarrow> (case c g of (r, g') \<Rightarrow> (r, st\<lparr>cells := (cells st)(a \<mapsto> wr g')\<rparr>))))"

definition on_gray :: "nat \<Rightarrow> real grid stmt \<Rightarrow> heap stmt" where
  "on_gray = on_cell as_acc Acc"

definition on_color :: "nat \<Rightarrow> rgb grid stmt \<Rightarrow> heap stmt" where
  "on_color = on_cell as_accC AccC"

definition astype_float32 :: "raster \<Rightarrow> ndarray" where
  "astype_float32 r = (case r of Gray g \<Rightarrow> Acc (astype_float g) | Color g \<Rightarrow> AccC (astype_float3 g))"

definition return_uint8 :: "nat \<Rightarrow> heap \<Rightarrow> (py_error + nat) \<times> heap" where
  "return_uint8 img st =
     (case cells st img of
        Some (Acc g) \<Rightarrow>
          (let (clipped, st1) = alloc (Acc (map (map clip) g)) st;
               (res, st2) = alloc (Raster (Gray (clip_uint8 g))) st1
           in (Inr res, st2))
      | Some (AccC g) \<Rightarrow>
          (let (clipped, st1) = alloc (AccC (map (map vclip) g)) st;
               (res, st2) = alloc (Raster (Color (clip_uint8_3 g))) st1
           in (Inr res, st2))
      | _ \<Rightarrow> (Inl TypeError, st))"

definition run_gray_heap :: "nat \<Rightarrow> (int \<Rightarrow> int \<Rightarrow> int \<Rightarrow> int \<Rightarrow> real grid stmt) \<Rightarrow> heap \<Rightarrow>
    (py_error + nat) \<times> heap" where
  "run_gray_heap img body st =
     (case cells st img of
        Some (Acc g) \<Rightarrow>
          (let (h, w) = shape g
           in case for_range h (\<lambda>y. for_range w (\<lambda>x. on_gray img (body h w y x))) st of
                (Some e, st') \<Rightarrow> (Inl e, st')
              | (None, st') \<Rightarrow> return_uint8 img st')
      | _ \<Rightarrow> (Inl ValueError, st))"

definition run_color_heap :: "nat \<Rightarrow> (int \<Rightarrow> int \<Rightarrow> int \<Rightarrow> int \<Rightarrow> rgb grid stmt) \<Rightarrow> heap \<Rightarrow>
    (py_error + nat) \<times> heap" where
  "run_color_heap img body st =
     (case cells st img of
        Some (AccC g) \<Rightarrow>
          (let (h, w) = shape g
           in case for_range h (\<lambda>y. for_range w (\<lambda>x. on_color img (body h w y x))) st of
                (Some e, st') \<Rightarrow> (Inl e, st')
              | (None, st') \<Rightarrow> return_uint8 img st')
      | _ \<Rightarrow> (Inl ValueError, st))"

definition dither_heap :: "heap \<Rightarrow> nat \<Rightarrow> bool \<Rightarrow> (int \<Rightarrow> int \<Rightarrow> int \<Rightarrow> int \<Rightarrow> rgb grid stmt) \<Rightarrow>
    (int \<Rightarrow> int \<Rightarrow> int \<Rightarrow> int \<Rightarrow> real grid stmt) \<Rightarrow> (py_error + nat) \<times> heap" where
  "dither_heap st image_in is_color color_body gray_body =
     (case cells st image_in of
        Some (Raster r) \<Rightarrow>
          (let (img, st1) = alloc (astype_float32 r) st
           in if is_color then run_color_heap img color_body st1
              else run_gray_heap img gray_body st1)
      | _ \<Rightarrow> (Inl TypeError, st))"

definition floyd_steinberg_dither_heap :: "heap \<Rightarrow> nat \<Rightarrow> real \<Rightarrow> bool \<Rightarrow> palette option \<Rightarrow>
    (py_error + nat) \<times> heap" where
  "floyd_steinberg_dither_heap st image_in dither_strength is_color palette =
     dither_heap st image_in is_color
       (fs_color_body (active_palette palette) dither_strength)
       (fs_gray_body dither_strength)"

definition atkinson_dither_heap :: "heap \<Rightarrow> nat \<Rightarrow> real \<Rightarrow> bool \<Rightarrow> palette option \<Rightarrow>
    (py_error + nat) \<times> heap" where
  "atkinson_dither_heap st image_in dither_strength is_color palette =
     dither_heap st image_in is_color
       (atkinson_color_body (active_palette palette) dither_strength)
       (atkinson_gray_body dither_strength)"

definition jarvis_judice_ninke_dither_heap :: "heap \<Rightarrow> nat \<Rightarrow> real \<Rightarrow> bool \<Rightarrow> palette option \<Rightarrow>
    (py_error + nat) \<times> heap" where
  "jarvis_judice_ninke_dither_heap st image_in dither_strength is_color palette =
     dither_heap st image_in is_color
       (jjn_color_body (active_palette palette) dither_strength)
       (jjn_gray_body dither_strength)"

definition ordered_dither_heap :: "heap \<Rightarrow> nat \<Rightarrow> int \<Rightarrow> bool \<Rightarrow> palette option \<Rightarrow>
    (py_error + nat) \<times> heap" where
  "ordered_dither_heap st image_in matrix_size is_color palette =
     dither_heap st image_in is_color
       (\<lambda>h w. ordered_color_body (active_palette palette) matrix_size)
       (\<lambda>h w. ordered_gray_body matrix_size)"

definition random_dither_heap :: "(int \<Rightarrow> int \<Rightarrow> real) \<Rightarrow> (int \<Rightarrow> int \<Rightarrow> rgb) \<Rightarrow>
    heap \<Rightarrow> nat \<Rightarrow> real \<Rightarrow> bool \<Rightarrow> palette option \<Rightarrow> (py_error + nat) \<times> heap" where
  "random_dither_heap py_random np_random st image_in threshold_variance is_color palette =
     dither_heap st image_in is_color
       (\<lambda>h w. random_color_body np_random (active_palette palette) threshold_variance)
       (\<lambda>h w. random_gray_body py_random threshold_variance)"

section \<open>Definitions written from the specification\<close>

text \<open>
  The definitions of this section follow the words of the specification, not the
  source; the theorems compare them with the functions of the source.
\<close>






text \<open>Plain thresholding of each pixel, independently, at the cutoff 128.\<close>

definition threshold_raster :: "u8 grid \<Rightarrow> u8 grid" where
  "threshold_raster image_in = map (map (\<lambda>v. if unat v > 128 then 255 else 0)) image_in"


text \<open>The Bayer index matrix of size \<open>2 ^ n\<close>, by the usual recursion: four copies of
  the matrix of half the size, multiplied by 4, with 0, 2, 3 and 1 added.\<close>

fun bayer_canonical :: "nat \<Rightarrow> int grid" where
  "bayer_canonical 0 = [[0]]"
| "bayer_canonical (Suc n) =
     (let m = bayer_canonical n
      in map (\<lambda>r. map (\<lambda>v. 4 * v) r @ map (\<lambda>v. 4 * v + 2) r) m
       @ map (\<lambda>r. map (\<lambda>v. 4 * v + 3) r @ map (\<lambda>v. 4 * v + 1) r) m)"

text \<open>The first index of a least element: no element is smaller, and every earlier one is
  greater.\<close>

definition first_least :: "real list \<Rightarrow> nat \<Rightarrow> bool" where
  "first_least ds r \<longleftrightarrow>
     r < length ds \<and> (\<forall>j<length ds. ds ! r \<le> ds ! j) \<and> (\<forall>j<r. ds ! r < ds ! j)"

section \<open>Vocabulary of the properties\<close>

text \<open>
  The definitions below are not part of the program: they name the notions in which its
  properties are stated and proved. A raster of \<open>h\<close> rows and \<open>w\<close> columns is
  \<open>rect h w img\<close>, \<open>inside h w y x\<close> says that \<open>(y, x)\<close> is one of its
  positions, \<open>px img y x\<close> is the pixel there and \<open>put img y x v\<close> the raster with
  that pixel replaced.
\<close>

definition rect :: "nat \<Rightarrow> nat \<Rightarrow> 'a grid \<Rightarrow> bool" where
  "rect h w img \<longleftrightarrow> length img = h \<and> (\<forall>r \<in> set img. length r = w)"

definition inside :: "nat \<Rightarrow> nat \<Rightarrow> int \<Rightarrow> int \<Rightarrow> bool" where
  "inside h w y x \<longleftrightarrow> 0 \<le> y \<and> y < int h \<and> 0 \<le> x \<and> x < int w"

definition px :: "'a grid \<Rightarrow> int \<Rightarrow> int \<Rightarrow> 'a" where
  "px img y x = img ! nat y ! nat x"

definition put :: "'a grid \<Rightarrow> int \<Rightarrow> int \<Rightarrow> 'a \<Rightarrow> 'a grid" where
  "put img y x v = img[nat y := (img ! nat y)[nat x := v]]"

text \<open>A statement that writes the pixel \<open>(y, x)\<close> alone, or raises and writes nothing.\<close>

definition pointwise :: "(py_error + 'a) \<Rightarrow> int \<Rightarrow> int \<Rightarrow> 'a grid stmt" where
  "pointwise g y x img = (case g of Inl e \<Rightarrow> (Some e, img) | Inr v \<Rightarrow> (None, put img y x v))"

text \<open>A statement \<open>keeps h w y x\<close> if on every raster of that size it raises nothing,
  keeps the size and leaves every pixel up to \<open>(y, x)\<close> in row-major order as it is.\<close>

definition keeps :: "nat \<Rightarrow> nat \<Rightarrow> int \<Rightarrow> int \<Rightarrow> 'a grid stmt \<Rightarrow> bool" where
  "keeps h w y x c \<longleftrightarrow>
     (\<forall>img. rect h w img \<longrightarrow>
        (\<exists>img'. c img = (None, img') \<and> rect h w img' \<and>
           (\<forall>y' x'. inside h w y' x' \<longrightarrow> (y' < y \<or> (y' = y \<and> x' \<le> x)) \<longrightarrow>
              px img' y' x' = px img y' x')))"

text \<open>What one pass of a loop body at \<open>(y, x)\<close> owes the scan: it keeps the size, leaves
  the pixels before \<open>(y, x)\<close> alone and writes at \<open>(y, x)\<close> a value that satisfies
  \<open>Q\<close>; \<open>F\<close> is what is known when it raises.\<close>

definition gray_step_ok :: "nat \<Rightarrow> nat \<Rightarrow> int \<Rightarrow> int \<Rightarrow> real grid \<Rightarrow> py_error option \<times> real grid \<Rightarrow> bool" where
  "gray_step_ok h w y x img res \<longleftrightarrow>
     (\<exists>img'. res = (None, img') \<and> rect h w img' \<and>
        px img' y x = (if px img y x > 128 then 255 else 0) \<and>
        (\<forall>y' x'. inside h w y' x' \<longrightarrow> (y' < y \<or> (y' = y \<and> x' < x)) \<longrightarrow>
           px img' y' x' = px img y' x'))"

definition step_ok :: "bool \<Rightarrow> ('a \<Rightarrow> bool) \<Rightarrow> nat \<Rightarrow> nat \<Rightarrow> int \<Rightarrow> int \<Rightarrow> 'a grid \<Rightarrow>
    py_error option \<times> 'a grid \<Rightarrow> bool" where
  "step_ok F Q h w y x img res \<longleftrightarrow>
     (case res of
        (Some e, img') \<Rightarrow> F
      | (None, img') \<Rightarrow> rect h w img' \<and> Q (px img' y x) \<and>
          (\<forall>y' x'. inside h w y' x' \<longrightarrow> (y' < y \<or> (y' = y \<and> x' < x)) \<longrightarrow>
             px img' y' x' = px img y' x'))"

definition bw :: "real \<Rightarrow> bool" where
  "bw v \<longleftrightarrow> v = 0 \<or> v = 255"

definition color_step :: "palette \<Rightarrow> nat \<Rightarrow> nat \<Rightarrow> int \<Rightarrow> int \<Rightarrow> rgb grid \<Rightarrow>
    py_error option \<times> rgb grid \<Rightarrow> bool" where
  "color_step palette = step_ok (palette = []) (\<lambda>v. v \<in> np_array ` set palette)"

text \<open>The value that the ordered and the random loop bodies write at \<open>(y, x)\<close>, as a
  function of the position and of the pixel \<open>v\<close> found there.\<close>

definition ordered_gray_px :: "int \<Rightarrow> int \<Rightarrow> int \<Rightarrow> real \<Rightarrow> py_error + real" where
  "ordered_gray_px matrix_size y x v =
     (case threshold_at matrix_size y x of
        Inl e \<Rightarrow> Inl e
      | Inr threshold \<Rightarrow> Inr (if v > threshold then 255 else 0))"

definition ordered_color_px :: "palette \<Rightarrow> int \<Rightarrow> int \<Rightarrow> int \<Rightarrow> rgb \<Rightarrow> py_error + rgb" where
  "ordered_color_px palette matrix_size y x v =
     (case threshold_at matrix_size y x of
        Inl e \<Rightarrow> Inl e
      | Inr threshold \<Rightarrow>
          (if length palette = 2
           then Inr (np_array (if mean3 v > threshold then palette ! 1 else palette ! 0))
           else nearest palette v))"

definition random_gray_px :: "(int \<Rightarrow> int \<Rightarrow> real) \<Rightarrow> real \<Rightarrow> int \<Rightarrow> int \<Rightarrow> real \<Rightarrow> py_error + real" where
  "random_gray_px py_random tv y x v =
     Inr (if v > 128 + uniform (- tv) tv (py_random y x) then 255 else 0)"

definition random_color_px :: "(int \<Rightarrow> int \<Rightarrow> rgb) \<Rightarrow> palette \<Rightarrow> real \<Rightarrow> int \<Rightarrow> int \<Rightarrow> rgb \<Rightarrow> py_error + rgb" where
  "random_color_px np_random palette tv y x v =
     (case np_random y x of (u1, u2, u3) \<Rightarrow>
        nearest palette (vclip (vadd v (uniform (- tv) tv u1, uniform (- tv) tv u2, uniform (- tv) tv u3))))"

text \<open>Well-formed inputs: a rectangular raster, of the rank that the mode expects, a
  palette of channels in 0..255, and a \<open>valid_call\<close> of the dispatcher: a known
  method with keyword arguments of its own, a matrix size of 2, 4 or 8, and in color
  mode a palette that is not empty.\<close>

definition rect_raster :: "nat \<Rightarrow> nat \<Rightarrow> raster \<Rightarrow> bool" where
  "rect_raster h w image_in = (case image_in of Gray g \<Rightarrow> rect h w g | Color g \<Rightarrow> rect h w g)"

definition fits :: "raster \<Rightarrow> bool \<Rightarrow> bool" where
  "fits image_in is_color = (case image_in of Gray g \<Rightarrow> \<not> is_color | Color g \<Rightarrow> is_color)"

fun as_color :: "rgb8 \<Rightarrow> color" where
  "as_color (r, g, b) = (uint r, uint g, uint b)"

fun valid_color :: "color \<Rightarrow> bool" where
  "valid_color (r, g, b) \<longleftrightarrow> 0 \<le> r \<and> r \<le> 255 \<and> 0 \<le> g \<and> g \<le> 255 \<and> 0 \<le> b \<and> b \<le> 255"

definition valid_palette :: "palette \<Rightarrow> bool" where
  "valid_palette palette \<longleftrightarrow> (\<forall>c \<in> set palette. valid_color c)"

definition outcome_ok :: "bool \<Rightarrow> nat \<Rightarrow> nat \<Rightarrow> bool \<Rightarrow> palette \<Rightarrow> py_error + raster \<Rightarrow> bool" where
  "outcome_ok F h w is_color palette res =
     (case res of
        Inl e \<Rightarrow> F
      | Inr (Gray g) \<Rightarrow> \<not> is_color \<and> rect h w g \<and> (\<forall>row \<in> set g. \<forall>v \<in> set row. v = 0 \<or> v = 255)
      | Inr (Color g) \<Rightarrow> is_color \<and> rect h w g \<and>
          (valid_palette palette \<longrightarrow> (\<forall>row \<in> set g. \<forall>p \<in> set row. as_color p \<in> set palette)))"

definition valid_call :: "raster \<Rightarrow> string \<Rightarrow> bool \<Rightarrow> kwargs \<Rightarrow> bool" where
  "valid_call image_in method is_color kw \<longleftrightarrow>
     fits image_in is_color \<and>
     (is_color \<longrightarrow> active_palette (kw_palette kw) \<noteq> []) \<and>
     (if method \<in> {''floyd_steinberg'', ''atkinson'', ''jarvis_judice_ninke''} then
        kw_matrix_size kw = None \<and> kw_threshold_variance kw = None
      else if method = ''ordered'' then
        kw_dither_strength kw = None \<and> kw_threshold_variance kw = None \<and>
        or_default (kw_matrix_size kw) 4 \<in> {2, 4, 8}
      else
        method = ''random'' \<and> kw_dither_strength kw = None \<and> kw_matrix_size kw = None)"


definition same_shape :: "raster \<Rightarrow> raster \<Rightarrow> bool" where
  "same_shape a b =
     (case a of
        Gray g \<Rightarrow> (case b of Gray g' \<Rightarrow> map length g' = map length g | Color g' \<Rightarrow> False)
      | Color g \<Rightarrow> (case b of Color g' \<Rightarrow> map length g' = map length g | Gray g' \<Rightarrow> False))"

definition no_kwargs :: kwargs where
  "no_kwargs = \<lparr>kw_dither_strength = None, kw_matrix_size = None,
                 kw_threshold_variance = None, kw_palette = None\<rparr>"

text \<open>A statement that changes nothing; a loop body that only quantizes the pixel it visits.\<close>

definition idle :: "nat \<Rightarrow> nat \<Rightarrow> 'a grid stmt \<Rightarrow> bool" where
  "idle h w c \<longleftrightarrow> (\<forall>img. rect h w img \<longrightarrow> c img = (None, img))"

definition only_quantizes :: "nat \<Rightarrow> nat \<Rightarrow> (int \<Rightarrow> int \<Rightarrow> int \<Rightarrow> int \<Rightarrow> real grid stmt) \<Rightarrow> bool" where
  "only_quantizes h w body \<longleftrightarrow>
     (\<forall>img y x. rect h w img \<longrightarrow> inside h w y x \<longrightarrow>
        body (int h) (int w) y x img = (None, put img y x (if px img y x > 128 then 255 else 0)))"





text \<open>On a store: the arrays that existed in \<open>st\<close> are the same in \<open>st'\<close>; a statement
  is local to an address if it writes nowhere else; a store statement lifts a statement
  on the array held at an address; the input is kept, the result is a new array, and the
  outcome is that of the function on values.\<close>

definition untouched :: "heap \<Rightarrow> heap \<Rightarrow> bool" where
  "untouched st st' \<longleftrightarrow>
     next_addr st \<le> next_addr st' \<and> (\<forall>a < next_addr st. cells st' a = cells st a)"

definition local_to :: "nat \<Rightarrow> heap stmt \<Rightarrow> bool" where
  "local_to a c \<longleftrightarrow>
     (\<forall>st. next_addr (snd (c st)) = next_addr st \<and> (\<forall>b. b \<noteq> a \<longrightarrow> cells (snd (c st)) b = cells st b))"

definition lifts :: "(ndarray \<Rightarrow> 'g option) \<Rightarrow> ('g \<Rightarrow> ndarray) \<Rightarrow> nat \<Rightarrow> heap stmt \<Rightarrow> 'g stmt \<Rightarrow> bool" where
  "lifts rd wr a F G \<longleftrightarrow>
     (\<forall>st g. cells st a = Some (wr g) \<longrightarrow>
        F st = (case G g of (r, g') \<Rightarrow> (r, st\<lparr>cells := (cells st)(a \<mapsto> wr g')\<rparr>)))"

definition input_kept :: "heap \<Rightarrow> nat \<Rightarrow> (py_error + nat) \<times> heap \<Rightarrow> bool" where
  "input_kept st image_in res \<longleftrightarrow>
     cells (snd res) image_in = cells st image_in \<and> (\<forall>b. fst res = Inr b \<longrightarrow> b \<noteq> image_in)"

definition agrees :: "(py_error + nat) \<times> heap \<Rightarrow> py_error + raster \<Rightarrow> bool" where
  "agrees res val \<longleftrightarrow>
     (case fst res of
        Inl e \<Rightarrow> val = Inl e
      | Inr b \<Rightarrow> (\<exists>out. val = Inr out \<and> cells (snd res) b = Some (Raster out)))"

definition fresh_result :: "heap \<Rightarrow> (py_error + nat) \<times> heap \<Rightarrow> bool" where
  "fresh_result st res \<longleftrightarrow>
     untouched st (snd res) \<and> (\<forall>b. fst res = Inr b \<longrightarrow> next_addr st \<le> b)"

definition example_heap :: heap where
  "example_heap = \<lparr>cells = Map.empty(0 \<mapsto> Raster (Gray [[100, 150], [200, 50]])), next_addr = 1\<rparr>"

section \<open>The dispatcher rejects unknown methods\<close>

text \<open>
  Claim C8. For every raster, every keyword arguments and every method name that is not
  one of \<open>floyd_steinberg\<close>, \<open>atkinson\<close>, \<open>jarvis_judice_ninke\<close>, \<open>ordered\<close> and
  \<open>random\<close>, \<^verbatim>\<open>apply_dithering\<close> raises ValueError. Its result is the exception alone:
  neither a raster nor the result of any dithering function, none of which is called.
\<close>

theorem apply_dithering_unknown_method:
  assumes "method \<notin> {''floyd_steinberg'', ''atkinson'', ''jarvis_judice_ninke'',
             ''ordered'', ''random''}"
  shows "apply_dithering py_random np_random image_in method is_color kw = Inl ValueError"
  using assms by (simp add: apply_dithering_def)

theorem apply_dithering_unknown_method_witness:
  "''invalid_method'' \<notin> {''floyd_steinberg'', ''atkinson'', ''jarvis_judice_ninke'',
      ''ordered'', ''random''}
   \<and> apply_dithering (\<lambda>y x. 0) (\<lambda>y x. (0, 0, 0)) (Gray [[100, 150], [200, 50]])
         ''invalid_method'' False
         \<lparr>kw_dither_strength = None, kw_matrix_size = None,
          kw_threshold_variance = None, kw_palette = None\<rparr> = Inl ValueError"
proof -
  have m: "''invalid_method'' \<notin> {''floyd_steinberg'', ''atkinson'', ''jarvis_judice_ninke'',
      ''ordered'', ''random''}"
    by simp
  show ?thesis
    using m apply_dithering_unknown_method [OF m] by simp
qed

section \<open>Loops and arrays\<close>

lemma block_append:
  "block (cs @ ds) s = (case block cs s of (None, s') \<Rightarrow> block ds s' | (Some e, s') \<Rightarrow> (Some e, s'))"
  by (induction cs arbitrary: s) (auto split: prod.splits option.splits)

lemma for_range_Suc:
  "for_range (int (Suc k)) body s =
     (case for_range (int k) body s of (None, s') \<Rightarrow> body (int k) s' | (Some e, s') \<Rightarrow> (Some e, s'))"
proof -
  have "[0..int (Suc k) - 1] = [0..int k - 1] @ [int k]"
    using upto_rec2 [of 0 "int k"] by simp
  then show ?thesis
    by (simp add: for_range_def block_append split: prod.splits option.splits)
qed

lemma for_range_0: "for_range 0 body s = (None, s)"
  by (simp add: for_range_def)

lemma for_range_rule_nat:
  assumes "I 0 s"
    and "\<And>i s. 0 \<le> i \<Longrightarrow> i < int k \<Longrightarrow> I i s \<Longrightarrow>
           (case body i s of (None, s') \<Rightarrow> I (i + 1) s' | (Some e, s') \<Rightarrow> F e)"
  shows "case for_range (int k) body s of (None, s') \<Rightarrow> I (int k) s' | (Some e, s') \<Rightarrow> F e"
  using assms(2)
proof (induction k)
  case 0
  then show ?case using assms(1) by (simp add: for_range_0)
next
  case (Suc k)
  have ih: "case for_range (int k) body s of (None, s') \<Rightarrow> I (int k) s' | (Some e, s') \<Rightarrow> F e"
    by (rule Suc.IH) (use Suc.prems in auto)
  show ?case
  proof (cases "for_range (int k) body s")
    case (Pair r s')
    show ?thesis
    proof (cases r)
      case None
      with Pair ih have "I (int k) s'" by simp
      then have "case body (int k) s' of (None, s'') \<Rightarrow> I (int k + 1) s'' | (Some e, s'') \<Rightarrow> F e"
        by (intro Suc.prems) auto
      then show ?thesis
        unfolding for_range_Suc using Pair None
        by (auto simp: add.commute split: prod.splits option.splits)
    next
      case (Some e)
      with Pair ih show ?thesis unfolding for_range_Suc by (simp del: of_nat_Suc)
    qed
  qed
qed

lemma scan_rule:
  assumes init: "J 0 s"
    and enter: "\<And>y s. 0 \<le> y \<Longrightarrow> y < int h \<Longrightarrow> J y s \<Longrightarrow> I y 0 s"
    and step: "\<And>y x s. 0 \<le> y \<Longrightarrow> y < int h \<Longrightarrow> 0 \<le> x \<Longrightarrow> x < int w \<Longrightarrow> I y x s \<Longrightarrow>
           (case body y x s of (None, s') \<Rightarrow> I y (x + 1) s' | (Some e, s') \<Rightarrow> F e)"
    and leave: "\<And>y s. 0 \<le> y \<Longrightarrow> y < int h \<Longrightarrow> I y (int w) s \<Longrightarrow> J (y + 1) s"
  shows "case for_range (int h) (\<lambda>y. for_range (int w) (body y)) s of
           (None, s') \<Rightarrow> J (int h) s' | (Some e, s') \<Rightarrow> F e"
proof (rule for_range_rule_nat [where I = J, OF init])
  fix y s
  assume y: "0 \<le> y" "y < int h" and J: "J y s"
  have "case for_range (int w) (body y) s of (None, s') \<Rightarrow> I y (int w) s' | (Some e, s') \<Rightarrow> F e"
    by (rule for_range_rule_nat [where I = "I y"]) (use y J enter step in auto)
  then show "case for_range (int w) (body y) s of (None, s') \<Rightarrow> J (y + 1) s' | (Some e, s') \<Rightarrow> F e"
    using leave [OF y] by (auto split: prod.splits option.splits)
qed

lemma shape_rect: "rect h w img \<Longrightarrow> 0 < h \<Longrightarrow> shape img = (int h, int w)"
  by (cases img) (auto simp: rect_def shape_def)

lemma getitem_inside: "rect h w img \<Longrightarrow> inside h w y x \<Longrightarrow> getitem img y x = Inr (px img y x)"
  by (auto simp: rect_def inside_def getitem_def norm_index_def px_def)

lemma setitem_inside: "rect h w img \<Longrightarrow> inside h w y x \<Longrightarrow> setitem y x v img = (None, put img y x v)"
  by (auto simp: rect_def inside_def setitem_def norm_index_def put_def)

lemma moditem_inside:
  "rect h w img \<Longrightarrow> inside h w y x \<Longrightarrow> moditem y x f img = (None, put img y x (f (px img y x)))"
  by (simp add: moditem_def getitem_inside setitem_inside)

lemma rect_nth: "rect h w img \<longleftrightarrow> length img = h \<and> (\<forall>i<length img. length (img ! i) = w)"
  by (auto simp: rect_def all_set_conv_all_nth)

lemma rect_put: "rect h w img \<Longrightarrow> rect h w (put img y x v)"
  by (cases "nat y < length img") (auto simp: rect_nth put_def nth_list_update)

lemma px_put:
  "rect h w img \<Longrightarrow> inside h w y x \<Longrightarrow> inside h w y' x' \<Longrightarrow>
     px (put img y x v) y' x' = (if y' = y \<and> x' = x then v else px img y' x')"
  by (auto simp: rect_def inside_def put_def px_def nth_list_update)

lemma put_same: "rect h w img \<Longrightarrow> inside h w y x \<Longrightarrow> put img y x (px img y x) = img"
  by (simp add: put_def px_def)

section \<open>Error diffusion only writes to later pixels\<close>

lemma keeps_block_Nil: "keeps h w y x (block [])"
  by (simp add: keeps_def)

lemma keeps_block_Cons:
  assumes c: "keeps h w y x c" and cs: "keeps h w y x (block cs)"
  shows "keeps h w y x (block (c # cs))"
  unfolding keeps_def
proof (intro allI impI)
  fix img :: "'a grid"
  assume "rect h w img"
  with c obtain img1 where 1: "c img = (None, img1)" "rect h w img1"
    "\<forall>y' x'. inside h w y' x' \<longrightarrow> (y' < y \<or> (y' = y \<and> x' \<le> x)) \<longrightarrow> px img1 y' x' = px img y' x'"
    unfolding keeps_def by blast
  with cs obtain img2 where 2: "block cs img1 = (None, img2)" "rect h w img2"
    "\<forall>y' x'. inside h w y' x' \<longrightarrow> (y' < y \<or> (y' = y \<and> x' \<le> x)) \<longrightarrow> px img2 y' x' = px img1 y' x'"
    unfolding keeps_def by blast
  from 1 2 show "\<exists>img'. block (c # cs) img = (None, img') \<and> rect h w img' \<and>
         (\<forall>y' x'. inside h w y' x' \<longrightarrow> (y' < y \<or> (y' = y \<and> x' \<le> x)) \<longrightarrow>
            px img' y' x' = px img y' x')"
    by simp
qed

lemma keeps_when: "(b \<Longrightarrow> keeps h w y x c) \<Longrightarrow> keeps h w y x (when_do b c)"
  by (simp add: keeps_def when_do_def)

lemma keeps_moditem:
  assumes "inside h w y' x'" and "y < y' \<or> (y = y' \<and> x < x')"
  shows "keeps h w y x (moditem y' x' f)"
  unfolding keeps_def
proof (intro allI impI)
  fix img :: "'a grid"
  assume r: "rect h w img"
  have "\<forall>v w'. inside h w v w' \<longrightarrow> (v < y \<or> (v = y \<and> w' \<le> x)) \<longrightarrow>
          px (put img y' x' (f (px img y' x'))) v w' = px img v w'"
    using assms r by (auto simp: px_put)
  then show "\<exists>img'. moditem y' x' f img = (None, img') \<and> rect h w img' \<and>
       (\<forall>v w'. inside h w v w' \<longrightarrow> (v < y \<or> (v = y \<and> w' \<le> x)) \<longrightarrow> px img' v w' = px img v w')"
    using r assms(1) by (simp add: moditem_inside rect_put)
qed

lemma quantize_then_keep:
  assumes r: "rect h w img" and i: "inside h w y x" and k: "keeps h w y x (block tail)"
  shows "\<exists>img'. block (setitem y x q # tail) img = (None, img') \<and> rect h w img' \<and>
           px img' y x = q \<and>
           (\<forall>y' x'. inside h w y' x' \<longrightarrow> (y' < y \<or> (y' = y \<and> x' < x)) \<longrightarrow>
              px img' y' x' = px img y' x')"
proof -
  have rp: "rect h w (put img y x q)"
    using r by (rule rect_put)
  with k obtain img' where 1: "block tail (put img y x q) = (None, img')" "rect h w img'"
      "\<forall>y' x'. inside h w y' x' \<longrightarrow> (y' < y \<or> (y' = y \<and> x' \<le> x)) \<longrightarrow>
          px img' y' x' = px (put img y x q) y' x'"
    unfolding keeps_def by blast
  have "px img' y x = q"
    using 1(3) i r by (simp add: px_put)
  moreover have "\<forall>y' x'. inside h w y' x' \<longrightarrow> (y' < y \<or> (y' = y \<and> x' < x)) \<longrightarrow>
              px img' y' x' = px img y' x'"
    using 1(3) i r by (auto simp: px_put)
  ultimately show ?thesis
    using 1(1,2) r i by (simp add: setitem_inside)
qed

lemma visited_next_row:
  "inside h w y' x' \<Longrightarrow>
     (y' < y + 1 \<or> (y' = y + 1 \<and> x' < 0)) = (y' < y \<or> (y' = y \<and> x' < int w))"
  by (auto simp: inside_def)

lemma scan_empty: "scan [] body = (None, [])"
  by (simp add: scan_def shape_def for_range_0)

lemma scan_closure:
  assumes body: "\<And>img y x. rect h w img \<Longrightarrow> inside h w y x \<Longrightarrow>
      (case body (int h) (int w) y x img of
         (Some e, img') \<Rightarrow> F e
       | (None, img') \<Rightarrow> rect h w img' \<and> Q (px img' y x) \<and>
           (\<forall>y' x'. inside h w y' x' \<longrightarrow> (y' < y \<or> (y' = y \<and> x' < x)) \<longrightarrow>
              px img' y' x' = px img y' x'))"
    and r: "rect h w img0"
  shows "case scan img0 body of
           (Some e, img') \<Rightarrow> F e
         | (None, img') \<Rightarrow> rect h w img' \<and> (\<forall>y x. inside h w y x \<longrightarrow> Q (px img' y x))"
proof (cases "h = 0")
  case True
  with r have "img0 = []" by (simp add: rect_def)
  with r True show ?thesis by (auto simp: scan_empty inside_def)
next
  case False
  with r have sh: "shape img0 = (int h, int w)" by (simp add: shape_rect)
  define I where "I = (\<lambda>y x s. rect h w s \<and>
     (\<forall>y' x'. inside h w y' x' \<longrightarrow> (y' < y \<or> (y' = y \<and> x' < x)) \<longrightarrow> Q (px s y' x')))"
  have "case for_range (int h) (\<lambda>y. for_range (int w) (body (int h) (int w) y)) img0 of
           (None, s') \<Rightarrow> I (int h) 0 s' | (Some e, s') \<Rightarrow> F e"
  proof (rule scan_rule [where I = I and J = "\<lambda>y. I y 0"])
    show "I 0 0 img0" using r by (simp add: I_def inside_def)
  next
    fix y s assume "I y 0 s" then show "I y 0 s" .
  next
    fix y s assume I: "I y (int w) s"
    show "I (y + 1) 0 s"
      unfolding I_def
    proof (intro conjI allI impI)
      show "rect h w s" using I by (simp add: I_def)
    next
      fix y' x'
      assume a: "inside h w y' x'" "y' < y + 1 \<or> (y' = y + 1 \<and> x' < 0)"
      then have "y' < y \<or> (y' = y \<and> x' < int w)"
        by (auto simp: inside_def)
      with I a(1) show "Q (px s y' x')"
        unfolding I_def by blast
    qed
  next
    fix y x s
    assume yx: "0 \<le> y" "y < int h" "0 \<le> x" "x < int w" and I: "I y x s"
    then have ins: "inside h w y x" and rs: "rect h w s"
      by (simp_all add: inside_def I_def)
    show "case body (int h) (int w) y x s of (None, s') \<Rightarrow> I y (x + 1) s' | (Some e, s') \<Rightarrow> F e"
    proof (cases "body (int h) (int w) y x s")
      case (Pair res s')
      show ?thesis
      proof (cases res)
        case None
        with Pair body [OF rs ins] have s': "rect h w s'" "Q (px s' y x)"
          "\<forall>y' x'. inside h w y' x' \<longrightarrow> (y' < y \<or> (y' = y \<and> x' < x)) \<longrightarrow> px s' y' x' = px s y' x'"
          by simp_all
        have "I y (x + 1) s'"
          unfolding I_def
        proof (intro conjI allI impI)
          show "rect h w s'" by (rule s')
        next
          fix y' x'
          assume a: "inside h w y' x'" "y' < y \<or> (y' = y \<and> x' < x + 1)"
          show "Q (px s' y' x')"
          proof (cases "y' = y \<and> x' = x")
            case True
            then show ?thesis using s'(2) by simp
          next
            case False
            with a have b: "y' < y \<or> (y' = y \<and> x' < x)" by auto
            with a s'(3) have "px s' y' x' = px s y' x'" by blast
            moreover have "Q (px s y' x')" using I a(1) b unfolding I_def by blast
            ultimately show ?thesis by simp
          qed
        qed
        with Pair None show ?thesis by simp
      next
        case (Some e)
        with Pair body [OF rs ins] show ?thesis by simp
      qed
    qed
  qed
  then show ?thesis
    by (auto simp: scan_def sh I_def inside_def split: prod.splits option.splits)
qed

lemma scan_pointwise:
  assumes body: "\<And>img y x. rect h w img \<Longrightarrow> inside h w y x \<Longrightarrow>
      body (int h) (int w) y x img = pointwise (g y x (px img y x)) y x img"
    and r: "rect h w img0"
  shows "case scan img0 body of
           (Some e, img') \<Rightarrow> (\<exists>y x. inside h w y x \<and> g y x (px img0 y x) = Inl e)
         | (None, img') \<Rightarrow> rect h w img' \<and>
             (\<forall>y x. inside h w y x \<longrightarrow> g y x (px img0 y x) = Inr (px img' y x))"
proof (cases "h = 0")
  case True
  with r have "img0 = []" by (simp add: rect_def)
  with r True show ?thesis by (auto simp: scan_empty inside_def)
next
  case False
  with r have sh: "shape img0 = (int h, int w)" by (simp add: shape_rect)
  define I where "I = (\<lambda>y x s. rect h w s \<and>
     (\<forall>y' x'. inside h w y' x' \<longrightarrow>
        (if y' < y \<or> (y' = y \<and> x' < x) then g y' x' (px img0 y' x') = Inr (px s y' x')
         else px s y' x' = px img0 y' x')))"
  define F where "F = (\<lambda>e. \<exists>y x. inside h w y x \<and> g y x (px img0 y x) = Inl e)"
  have "case for_range (int h) (\<lambda>y. for_range (int w) (body (int h) (int w) y)) img0 of
           (None, s') \<Rightarrow> I (int h) 0 s' | (Some e, s') \<Rightarrow> F e"
  proof (rule scan_rule [where I = I and J = "\<lambda>y. I y 0"])
    show "I 0 0 img0" using r by (simp add: I_def inside_def)
  next
    fix y s assume "I y 0 s" then show "I y 0 s" .
  next
    fix y s assume I: "I y (int w) s"
    show "I (y + 1) 0 s"
      unfolding I_def
    proof (intro conjI allI impI)
      show "rect h w s" using I by (simp add: I_def)
    next
      fix y' x'
      assume a: "inside h w y' x'"
      have "if y' < y \<or> (y' = y \<and> x' < int w)
            then g y' x' (px img0 y' x') = Inr (px s y' x') else px s y' x' = px img0 y' x'"
        using I a unfolding I_def by blast
      then show "if y' < y + 1 \<or> (y' = y + 1 \<and> x' < 0)
            then g y' x' (px img0 y' x') = Inr (px s y' x') else px s y' x' = px img0 y' x'"
        unfolding visited_next_row [OF a] .
    qed
  next
    fix y x s
    assume yx: "0 \<le> y" "y < int h" "0 \<le> x" "x < int w" and I: "I y x s"
    then have ins: "inside h w y x" and rs: "rect h w s"
      by (simp_all add: inside_def I_def)
    from I ins have cur: "px s y x = px img0 y x"
      unfolding I_def by (auto split: if_splits)
    show "case body (int h) (int w) y x s of (None, s') \<Rightarrow> I y (x + 1) s' | (Some e, s') \<Rightarrow> F e"
    proof (cases "g y x (px img0 y x)")
      case (Inl e)
      then have "F e" using ins unfolding F_def by blast
      with Inl show ?thesis by (simp add: body [OF rs ins] cur pointwise_def)
    next
      case (Inr v)
      have "I y (x + 1) (put s y x v)"
        unfolding I_def
      proof (intro conjI allI impI)
        show "rect h w (put s y x v)" using rs by (rule rect_put)
      next
        fix y' x'
        assume a: "inside h w y' x'"
        have old: "if y' < y \<or> (y' = y \<and> x' < x) then g y' x' (px img0 y' x') = Inr (px s y' x')
               else px s y' x' = px img0 y' x'"
          using I a unfolding I_def by blast
        show "if y' < y \<or> (y' = y \<and> x' < x + 1)
           then g y' x' (px img0 y' x') = Inr (px (put s y x v) y' x')
           else px (put s y x v) y' x' = px img0 y' x'"
        proof (cases "y' = y \<and> x' = x")
          case True
          then show ?thesis using Inr rs ins by (simp add: px_put)
        next
          case False
          then have "px (put s y x v) y' x' = px s y' x'"
            using rs ins a by (auto simp: px_put)
          moreover have "(y' < y \<or> (y' = y \<and> x' < x + 1)) = (y' < y \<or> (y' = y \<and> x' < x))"
            using False by auto
          ultimately show ?thesis using old by simp
        qed
      qed
      with Inr show ?thesis by (simp add: body [OF rs ins] cur pointwise_def)
    qed
  qed
  then show ?thesis
    unfolding scan_def sh I_def F_def inside_def
    by (auto split: prod.splits option.splits if_splits)
qed

lemmas keeps_rules = keeps_block_Nil keeps_block_Cons keeps_when keeps_moditem

lemma fs_gray_tail:
  assumes "inside h w y x"
  shows "keeps h w y x (block
     [when_do (x + 1 < int w) (moditem y (x + 1) f1),
      when_do (y + 1 < int h) (block
        [when_do (x > 0) (moditem (y + 1) (x - 1) f2),
         moditem (y + 1) x f3,
         when_do (x + 1 < int w) (moditem (y + 1) (x + 1) f4)])])"
  using assms by (auto intro!: keeps_rules simp: inside_def)

lemma atkinson_tail:
  assumes "inside h w y x"
  shows "keeps h w y x (block
     [when_do (x + 1 < int w) (moditem y (x + 1) f1),
      when_do (x + 2 < int w) (moditem y (x + 2) f2),
      when_do (y + 1 < int h) (block
        [when_do (x > 0) (moditem (y + 1) (x - 1) f3),
         moditem (y + 1) x f4,
         when_do (x + 1 < int w) (moditem (y + 1) (x + 1) f5)]),
      when_do (y + 2 < int h) (moditem (y + 2) x f6)])"
  using assms by (auto intro!: keeps_rules simp: inside_def)

lemma jjn_tail:
  assumes "inside h w y x"
  shows "keeps h w y x (block
     [when_do (x + 1 < int w) (moditem y (x + 1) f1),
      when_do (x + 2 < int w) (moditem y (x + 2) f2),
      when_do (y + 1 < int h) (block
        [when_do (x > 1) (moditem (y + 1) (x - 2) f3),
         when_do (x > 0) (moditem (y + 1) (x - 1) f4),
         moditem (y + 1) x f5,
         when_do (x + 1 < int w) (moditem (y + 1) (x + 1) f6),
         when_do (x + 2 < int w) (moditem (y + 1) (x + 2) f7)]),
      when_do (y + 2 < int h) (block
        [when_do (x > 1) (moditem (y + 2) (x - 2) f8),
         when_do (x > 0) (moditem (y + 2) (x - 1) f9),
         moditem (y + 2) x f10,
         when_do (x + 1 < int w) (moditem (y + 2) (x + 1) f11),
         when_do (x + 2 < int w) (moditem (y + 2) (x + 2) f12)])])"
  using assms by (auto intro!: keeps_rules simp: inside_def)

lemma fs_gray_body_step:
  assumes "rect h w img" and "inside h w y x"
  shows "gray_step_ok h w y x img (fs_gray_body s (int h) (int w) y x img)"
  unfolding gray_step_ok_def fs_gray_body_def getitem_inside [OF assms] Let_def sum.case
  by (rule quantize_then_keep [OF assms fs_gray_tail [OF assms(2)]])

lemma atkinson_gray_body_step:
  assumes "rect h w img" and "inside h w y x"
  shows "gray_step_ok h w y x img (atkinson_gray_body s (int h) (int w) y x img)"
  unfolding gray_step_ok_def atkinson_gray_body_def getitem_inside [OF assms] Let_def sum.case
  by (rule quantize_then_keep [OF assms atkinson_tail [OF assms(2)]])

lemma jjn_gray_body_step:
  assumes "rect h w img" and "inside h w y x"
  shows "gray_step_ok h w y x img (jjn_gray_body s (int h) (int w) y x img)"
  unfolding gray_step_ok_def jjn_gray_body_def getitem_inside [OF assms] Let_def sum.case
  by (rule quantize_then_keep [OF assms jjn_tail [OF assms(2)]])

section \<open>The nearest palette color\<close>

lemma argmin_from_first_least:
  assumes "length pre = i" and "best < i" and "pre ! best = m"
    and "\<forall>j<i. m \<le> pre ! j" and "\<forall>j<best. m < pre ! j"
  shows "first_least (pre @ ds) (argmin_from ds i best m)"
  using assms
proof (induction ds arbitrary: pre i best m)
  case Nil
  then show ?case by (simp add: first_least_def)
next
  case (Cons d ds)
  show ?case
  proof (cases "d < m")
    case True
    have "first_least ((pre @ [d]) @ ds) (argmin_from ds (Suc i) i d)"
    proof (rule Cons.IH)
      show "length (pre @ [d]) = Suc i" using Cons.prems by simp
      show "i < Suc i" by simp
      show "(pre @ [d]) ! i = d" using Cons.prems by (simp add: nth_append)
      have below: "d < pre ! j" if "j < i" for j
      proof -
        from that Cons.prems have "m \<le> pre ! j" by blast
        with True show ?thesis by simp
      qed
      show "\<forall>j<Suc i. d \<le> (pre @ [d]) ! j"
      proof (intro allI impI)
        fix j assume "j < Suc i"
        then show "d \<le> (pre @ [d]) ! j"
          using below [of j] Cons.prems(1) by (cases "j < i") (auto simp: nth_append)
      qed
      show "\<forall>j<i. d < (pre @ [d]) ! j"
        using below Cons.prems(1) by (simp add: nth_append)
    qed
    with True show ?thesis by simp
  next
    case False
    have "first_least ((pre @ [d]) @ ds) (argmin_from ds (Suc i) best m)"
    proof (rule Cons.IH)
      show "length (pre @ [d]) = Suc i" using Cons.prems by simp
      show "best < Suc i" using Cons.prems by simp
      show "(pre @ [d]) ! best = m" using Cons.prems by (simp add: nth_append)
      show "\<forall>j<Suc i. m \<le> (pre @ [d]) ! j"
        using Cons.prems False by (auto simp: nth_append less_Suc_eq)
      show "\<forall>j<best. m < (pre @ [d]) ! j"
        using Cons.prems by (auto simp: nth_append)
    qed
    with False show ?thesis by simp
  qed
qed

lemma argmin_Nil: "argmin [] = Inl ValueError"
  by (simp add: argmin_def)

lemma argmin_first_least: "ds \<noteq> [] \<Longrightarrow> \<exists>r. argmin ds = Inr r \<and> first_least ds r"
proof (cases ds)
  case Nil
  assume "ds \<noteq> []"
  with Nil show ?thesis by simp
next
  case (Cons d ds')
  have "first_least ([d] @ ds') (argmin_from ds' 1 0 d)"
    by (rule argmin_from_first_least) auto
  with Cons show ?thesis by (simp add: argmin_def)
qed

lemma nearest_Nil: "nearest [] v = Inl ValueError"
  by (simp add: nearest_def distances_def argmin_Nil)

lemma nearest_first_least:
  assumes "palette \<noteq> []"
  shows "\<exists>r. nearest palette v = Inr (np_array (palette ! r)) \<and> r < length palette \<and>
           first_least (distances palette v) r"
proof -
  have "distances palette v \<noteq> []" using assms by (simp add: distances_def)
  then obtain r where r: "argmin (distances palette v) = Inr r" "first_least (distances palette v) r"
    using argmin_first_least by blast
  then have "r < length palette" by (simp add: first_least_def distances_def)
  with r show ?thesis by (auto simp: nearest_def)
qed

lemma nearest_cases:
  "(palette = [] \<and> nearest palette v = Inl ValueError) \<or>
   (palette \<noteq> [] \<and> (\<exists>c \<in> set palette. nearest palette v = Inr (np_array c)))"
proof (cases "palette = []")
  case True
  then show ?thesis by (simp add: nearest_Nil)
next
  case False
  then obtain r where "nearest palette v = Inr (np_array (palette ! r))" "r < length palette"
    using nearest_first_least by blast
  with False show ?thesis by auto
qed

lemma nearest_outcome:
  "case nearest palette v of Inl e \<Rightarrow> palette = [] | Inr q \<Rightarrow> q \<in> np_array ` set palette"
  using nearest_cases [of palette v]
  by (elim disjE conjE bexE) (simp_all add: imageI)

lemma nearest_Inl: "nearest palette v = Inl e \<Longrightarrow> palette = []"
  using nearest_outcome [of palette v] by simp

lemma nearest_Inr: "nearest palette v = Inr q \<Longrightarrow> q \<in> np_array ` set palette"
  using nearest_outcome [of palette v] by simp

lemma step_ok_quantize:
  assumes "rect h w img" and "inside h w y x" and "keeps h w y x (block tail)" and "Q q"
  shows "step_ok F Q h w y x img (block (setitem y x q # tail) img)"
  using quantize_then_keep [OF assms(1-3), of q] assms(4)
  by (auto simp: step_ok_def)

lemma step_ok_pointwise:
  assumes "rect h w img" and "inside h w y x"
    and "\<And>e. g = Inl e \<Longrightarrow> F" and "\<And>v. g = Inr v \<Longrightarrow> Q v"
  shows "step_ok F Q h w y x img (pointwise g y x img)"
  using assms by (cases g) (auto simp: step_ok_def pointwise_def rect_put px_put)

lemma gray_step_ok_step_ok: "gray_step_ok h w y x img res \<Longrightarrow> step_ok F bw h w y x img res"
  by (auto simp: gray_step_ok_def step_ok_def bw_def)

lemma fs_color_body_step:
  assumes "rect h w img" and "inside h w y x"
  shows "color_step palette h w y x img (fs_color_body palette s (int h) (int w) y x img)"
proof -
  from nearest_cases [of palette "px img y x"] show ?thesis
  proof (elim disjE conjE bexE)
    assume "palette = []" "nearest palette (px img y x) = Inl ValueError"
    then show ?thesis
      by (simp add: color_step_def step_ok_def fs_color_body_def getitem_inside [OF assms])
  next
    fix c assume c: "c \<in> set palette" "nearest palette (px img y x) = Inr (np_array c)"
    show ?thesis
      unfolding color_step_def fs_color_body_def getitem_inside [OF assms] c(2) Let_def sum.case
      by (rule step_ok_quantize [OF assms fs_gray_tail [OF assms(2)]]) (use c in simp)
  qed
qed

lemma atkinson_color_body_step:
  assumes "rect h w img" and "inside h w y x"
  shows "color_step palette h w y x img (atkinson_color_body palette s (int h) (int w) y x img)"
proof -
  from nearest_cases [of palette "px img y x"] show ?thesis
  proof (elim disjE conjE bexE)
    assume "palette = []" "nearest palette (px img y x) = Inl ValueError"
    then show ?thesis
      by (simp add: color_step_def step_ok_def atkinson_color_body_def getitem_inside [OF assms])
  next
    fix c assume c: "c \<in> set palette" "nearest palette (px img y x) = Inr (np_array c)"
    show ?thesis
      unfolding color_step_def atkinson_color_body_def getitem_inside [OF assms] c(2) Let_def sum.case
      by (rule step_ok_quantize [OF assms atkinson_tail [OF assms(2)]]) (use c in simp)
  qed
qed

lemma jjn_color_body_step:
  assumes "rect h w img" and "inside h w y x"
  shows "color_step palette h w y x img (jjn_color_body palette s (int h) (int w) y x img)"
proof -
  from nearest_cases [of palette "px img y x"] show ?thesis
  proof (elim disjE conjE bexE)
    assume "palette = []" "nearest palette (px img y x) = Inl ValueError"
    then show ?thesis
      by (simp add: color_step_def step_ok_def jjn_color_body_def getitem_inside [OF assms])
  next
    fix c assume c: "c \<in> set palette" "nearest palette (px img y x) = Inr (np_array c)"
    show ?thesis
      unfolding color_step_def jjn_color_body_def getitem_inside [OF assms] c(2) Let_def sum.case
      by (rule step_ok_quantize [OF assms jjn_tail [OF assms(2)]]) (use c in simp)
  qed
qed

section \<open>Ordered and random dithering act pixel by pixel\<close>

lemma ordered_gray_body_pointwise:
  assumes "rect h w img" and "inside h w y x"
  shows "ordered_gray_body m y x img = pointwise (ordered_gray_px m y x (px img y x)) y x img"
  by (simp add: ordered_gray_body_def ordered_gray_px_def pointwise_def moditem_inside [OF assms]
      split: sum.splits)

lemma ordered_color_body_pointwise:
  assumes "rect h w img" and "inside h w y x"
  shows "ordered_color_body palette m y x img =
           pointwise (ordered_color_px palette m y x (px img y x)) y x img"
  by (simp add: ordered_color_body_def ordered_color_px_def pointwise_def Let_def
      getitem_inside [OF assms] setitem_inside [OF assms] split: sum.splits)

lemma random_gray_body_pointwise:
  assumes "rect h w img" and "inside h w y x"
  shows "random_gray_body pr tv y x img = pointwise (random_gray_px pr tv y x (px img y x)) y x img"
  by (simp add: random_gray_body_def random_gray_px_def pointwise_def Let_def
      moditem_inside [OF assms])

lemma random_color_body_pointwise:
  assumes "rect h w img" and "inside h w y x"
  shows "random_color_body nr palette tv y x img =
           pointwise (random_color_px nr palette tv y x (px img y x)) y x img"
  by (simp add: random_color_body_def random_color_px_def pointwise_def Let_def
      getitem_inside [OF assms] setitem_inside [OF assms] split: sum.splits prod.splits)

lemma rect_bayer_matrix:
  "rect 2 2 (bayer_matrix 2)" "rect 4 4 (bayer_matrix 4)" "rect 8 8 (bayer_matrix 8)"
  by (simp_all add: rect_def bayer_matrix_def divide_by_def bayer2_def bayer4_def bayer8_def)

lemma threshold_at_valid:
  assumes "m \<in> {2, 4, 8}" and "0 \<le> y" and "0 \<le> x"
  shows "threshold_at m y x = Inr (px (bayer_matrix m) (y mod m) (x mod m) * 255)"
proof -
  have "rect (nat m) (nat m) (bayer_matrix m)"
    using assms(1) rect_bayer_matrix by auto
  moreover have "inside (nat m) (nat m) (y mod m) (x mod m)"
    using assms by (auto simp: inside_def)
  ultimately have "getitem (bayer_matrix m) (y mod m) (x mod m) = Inr (px (bayer_matrix m) (y mod m) (x mod m))"
    by (rule getitem_inside)
  moreover have "m \<noteq> 0" using assms(1) by auto
  ultimately show ?thesis
    by (simp add: threshold_at_def py_mod_def)
qed

section \<open>Conversions between the input, the accumulator and the result\<close>

lemma rect_map [simp]: "rect h w (map (map f) img) = rect h w img"
  by (auto simp: rect_def)

lemma rect_conversions [simp]:
  "rect h w (clip_uint8 a) = rect h w a"
  "rect h w (clip_uint8_3 b) = rect h w b"
  "rect h w (astype_float c) = rect h w c"
  "rect h w (astype_float3 d) = rect h w d"
  by (simp_all add: clip_uint8_def clip_uint8_3_def astype_float_def astype_float3_def)

lemma px_map: "rect h w img \<Longrightarrow> inside h w y x \<Longrightarrow> px (map (map f) img) y x = f (px img y x)"
  by (auto simp: rect_nth inside_def px_def)

lemma all_px_iff:
  assumes "rect h w g"
  shows "(\<forall>y x. inside h w y x \<longrightarrow> P (px g y x)) \<longleftrightarrow> (\<forall>row \<in> set g. \<forall>v \<in> set row. P v)"
proof
  assume L: "\<forall>y x. inside h w y x \<longrightarrow> P (px g y x)"
  show "\<forall>row \<in> set g. \<forall>v \<in> set row. P v"
  proof (intro ballI)
    fix row v assume "row \<in> set g" "v \<in> set row"
    then obtain i j where ij: "i < length g" "row = g ! i" "j < length row" "v = row ! j"
      by (auto simp: in_set_conv_nth)
    with assms have "inside h w (int i) (int j)"
      by (auto simp: rect_nth inside_def)
    with L have "P (px g (int i) (int j))" by blast
    with ij show "P v" by (simp add: px_def)
  qed
next
  assume R: "\<forall>row \<in> set g. \<forall>v \<in> set row. P v"
  show "\<forall>y x. inside h w y x \<longrightarrow> P (px g y x)"
  proof (intro allI impI)
    fix y x assume "inside h w y x"
    with assms have "nat y < length g" "nat x < length (g ! nat y)"
      by (auto simp: rect_nth inside_def)
    then have "g ! nat y \<in> set g" "g ! nat y ! nat x \<in> set (g ! nat y)"
      by simp_all
    with R show "P (px g y x)" unfolding px_def by blast
  qed
qed

lemma grid_eqI:
  assumes "rect h w a" and "rect h w b" and "\<And>y x. inside h w y x \<Longrightarrow> px a y x = px b y x"
  shows "a = b"
proof (rule nth_equalityI)
  show "length a = length b" using assms by (simp add: rect_def)
next
  fix i assume i: "i < length a"
  show "a ! i = b ! i"
  proof (rule nth_equalityI)
    show "length (a ! i) = length (b ! i)"
      using assms(1,2) i by (simp add: rect_nth)
  next
    fix j assume "j < length (a ! i)"
    with i assms(1) have "inside h w (int i) (int j)"
      by (auto simp: rect_nth inside_def)
    from assms(3) [OF this] show "a ! i ! j = b ! i ! j"
      by (simp add: px_def)
  qed
qed

lemma to_uint8_0 [simp]: "to_uint8 0 = 0"
  by (simp add: to_uint8_def clip_def)

lemma to_uint8_255 [simp]: "to_uint8 255 = 255"
  by (simp add: to_uint8_def clip_def)

lemma uint_to_uint8: "0 \<le> r \<Longrightarrow> r \<le> 255 \<Longrightarrow> uint (to_uint8 (real_of_int r)) = r"
  by (simp add: to_uint8_def clip_def uint_word_of_int take_bit_eq_mod)

section \<open>The outcome of every function\<close>

lemma step_ok_weaken: "step_ok F Q h w y x img res \<Longrightarrow> (F \<Longrightarrow> F') \<Longrightarrow> step_ok F' Q h w y x img res"
  by (auto simp: step_ok_def split: prod.splits option.splits)

lemma scan_step_ok:
  assumes "\<And>img y x. rect h w img \<Longrightarrow> inside h w y x \<Longrightarrow>
             step_ok F Q h w y x img (body (int h) (int w) y x img)"
    and "rect h w img0"
  shows "case scan img0 body of
           (Some e, img') \<Rightarrow> F
         | (None, img') \<Rightarrow> rect h w img' \<and> (\<forall>y x. inside h w y x \<longrightarrow> Q (px img' y x))"
  by (rule scan_closure [where F = "\<lambda>e. F"]) (use assms in \<open>simp_all add: step_ok_def\<close>)

lemma run_gray_outcome:
  assumes "\<And>img y x. rect h w img \<Longrightarrow> inside h w y x \<Longrightarrow>
             step_ok F bw h w y x img (body (int h) (int w) y x img)"
    and "rect h w g"
  shows "outcome_ok F h w False palette (run_gray g body)"
proof -
  have r: "rect h w (astype_float g)"
    using assms(2) by (simp add: astype_float_def)
  have "case scan (astype_float g) body of
           (Some e, img') \<Rightarrow> F
         | (None, img') \<Rightarrow> rect h w img' \<and> (\<forall>y x. inside h w y x \<longrightarrow> bw (px img' y x))"
    by (rule scan_step_ok [where body = body and h = h and w = w and F = F and Q = bw])
      (use assms(1) r in auto)
  moreover have "\<forall>row \<in> set (clip_uint8 img'). \<forall>v \<in> set row. v = 0 \<or> v = 255"
    if a: "rect h w img'" "\<forall>y x. inside h w y x \<longrightarrow> bw (px img' y x)" for img'
  proof -
    have "rect h w (clip_uint8 img')"
      using a(1) by (simp add: clip_uint8_def)
    moreover have "\<forall>y x. inside h w y x \<longrightarrow> (px (clip_uint8 img') y x = 0 \<or> px (clip_uint8 img') y x = 255)"
    proof (intro allI impI)
      fix y x assume i: "inside h w y x"
      with a(2) have "px img' y x = 0 \<or> px img' y x = 255"
        by (simp add: bw_def)
      then show "px (clip_uint8 img') y x = 0 \<or> px (clip_uint8 img') y x = 255"
        using a(1) i by (auto simp: clip_uint8_def px_map)
    qed
    ultimately show ?thesis
      using all_px_iff [of h w "clip_uint8 img'" "\<lambda>v. v = 0 \<or> v = 255"] by blast
  qed
  ultimately show ?thesis
    by (auto simp: outcome_ok_def run_gray_def split: prod.splits option.splits)
qed

lemma as_color_clip:
  assumes "valid_color c"
  shows "as_color (case np_array c of (r, g, b) \<Rightarrow> (to_uint8 r, to_uint8 g, to_uint8 b)) = c"
  using assms by (cases c) (simp add: uint_to_uint8)

lemma run_color_outcome:
  assumes "\<And>img y x. rect h w img \<Longrightarrow> inside h w y x \<Longrightarrow>
             step_ok F (\<lambda>v. v \<in> np_array ` set palette) h w y x img (body (int h) (int w) y x img)"
    and "rect h w g"
  shows "outcome_ok F h w True palette (run_color g body)"
proof -
  have r: "rect h w (astype_float3 g)"
    using assms(2) by (simp add: astype_float3_def)
  have "case scan (astype_float3 g) body of
           (Some e, img') \<Rightarrow> F
         | (None, img') \<Rightarrow> rect h w img' \<and>
             (\<forall>y x. inside h w y x \<longrightarrow> px img' y x \<in> np_array ` set palette)"
    by (rule scan_step_ok [where body = body and h = h and w = w and F = F
          and Q = "\<lambda>v. v \<in> np_array ` set palette"])
      (use assms(1) r in auto)
  moreover have "\<forall>row \<in> set (clip_uint8_3 img'). \<forall>p \<in> set row. as_color p \<in> set palette"
    if a: "rect h w img'" "\<forall>y x. inside h w y x \<longrightarrow> px img' y x \<in> np_array ` set palette"
      and v: "valid_palette palette" for img'
  proof -
    have "rect h w (clip_uint8_3 img')"
      using a(1) by (simp add: clip_uint8_3_def)
    moreover have "\<forall>y x. inside h w y x \<longrightarrow> as_color (px (clip_uint8_3 img') y x) \<in> set palette"
    proof (intro allI impI)
      fix y x assume i: "inside h w y x"
      with a(2) obtain c where c: "c \<in> set palette" "px img' y x = np_array c" by blast
      with v have "valid_color c" by (simp add: valid_palette_def)
      then show "as_color (px (clip_uint8_3 img') y x) \<in> set palette"
        using c i a(1) by (simp add: clip_uint8_3_def px_map as_color_clip)
    qed
    ultimately show ?thesis
      using all_px_iff [of h w "clip_uint8_3 img'" "\<lambda>p. as_color p \<in> set palette"] by blast
  qed
  ultimately show ?thesis
    by (auto simp: outcome_ok_def run_color_def split: prod.splits option.splits)
qed

lemma dither_outcome:
  assumes "rect_raster h w image_in"
    and "\<And>img y x. \<not> is_color \<Longrightarrow> rect h w img \<Longrightarrow> inside h w y x \<Longrightarrow>
           step_ok F bw h w y x img (gray_body (int h) (int w) y x img)"
    and "\<And>img y x. is_color \<Longrightarrow> rect h w img \<Longrightarrow> inside h w y x \<Longrightarrow>
           step_ok F (\<lambda>v. v \<in> np_array ` set palette) h w y x img (color_body (int h) (int w) y x img)"
  shows "outcome_ok (F \<or> \<not> fits image_in is_color) h w is_color palette
           (dither image_in is_color color_body gray_body)"
proof (cases image_in)
  case (Gray g)
  show ?thesis
  proof (cases is_color)
    case True
    with Gray show ?thesis by (simp add: dither_def outcome_ok_def fits_def)
  next
    case False
    have "outcome_ok (F \<or> \<not> fits image_in is_color) h w False palette (run_gray g gray_body)"
      by (rule run_gray_outcome)
        (use assms False Gray in \<open>auto simp: rect_raster_def intro: step_ok_weaken\<close>)
    with Gray False show ?thesis by (simp add: dither_def)
  qed
next
  case (Color g)
  show ?thesis
  proof (cases is_color)
    case False
    with Color show ?thesis by (simp add: dither_def outcome_ok_def fits_def)
  next
    case True
    have "outcome_ok (F \<or> \<not> fits image_in is_color) h w True palette (run_color g color_body)"
      by (rule run_color_outcome)
        (use assms True Color in \<open>auto simp: rect_raster_def intro: step_ok_weaken\<close>)
    with Color True show ?thesis by (simp add: dither_def)
  qed
qed

lemma outcome_ok_weaken:
  "outcome_ok F h w is_color palette res \<Longrightarrow> (F \<Longrightarrow> F') \<Longrightarrow> outcome_ok F' h w is_color palette res"
  by (auto simp: outcome_ok_def split: sum.splits raster.splits)

lemma color_step_weaken:
  "color_step palette h w y x img res \<Longrightarrow> (palette = [] \<Longrightarrow> F) \<Longrightarrow>
     step_ok F (\<lambda>v. v \<in> np_array ` set palette) h w y x img res"
  unfolding color_step_def by (rule step_ok_weaken)

lemma floyd_steinberg_outcome:
  assumes "rect_raster h w image_in"
  shows "outcome_ok (is_color \<and> active_palette palette = [] \<or> \<not> fits image_in is_color)
           h w is_color (active_palette palette)
           (floyd_steinberg_dither image_in dither_strength is_color palette)"
  unfolding floyd_steinberg_dither_def
  by (rule dither_outcome [where gray_body = "fs_gray_body dither_strength"
        and color_body = "fs_color_body (active_palette palette) dither_strength", OF assms])
    (auto intro: gray_step_ok_step_ok fs_gray_body_step color_step_weaken fs_color_body_step)

lemma atkinson_outcome:
  assumes "rect_raster h w image_in"
  shows "outcome_ok (is_color \<and> active_palette palette = [] \<or> \<not> fits image_in is_color)
           h w is_color (active_palette palette)
           (atkinson_dither image_in dither_strength is_color palette)"
  unfolding atkinson_dither_def
  by (rule dither_outcome [where gray_body = "atkinson_gray_body dither_strength"
        and color_body = "atkinson_color_body (active_palette palette) dither_strength", OF assms])
    (auto intro: gray_step_ok_step_ok atkinson_gray_body_step color_step_weaken atkinson_color_body_step)

lemma jarvis_judice_ninke_outcome:
  assumes "rect_raster h w image_in"
  shows "outcome_ok (is_color \<and> active_palette palette = [] \<or> \<not> fits image_in is_color)
           h w is_color (active_palette palette)
           (jarvis_judice_ninke_dither image_in dither_strength is_color palette)"
  unfolding jarvis_judice_ninke_dither_def
  by (rule dither_outcome [where gray_body = "jjn_gray_body dither_strength"
        and color_body = "jjn_color_body (active_palette palette) dither_strength", OF assms])
    (auto intro: gray_step_ok_step_ok jjn_gray_body_step color_step_weaken jjn_color_body_step)

lemma ordered_gray_px_cases:
  assumes "0 \<le> y" and "0 \<le> x"
  shows "case ordered_gray_px m y x v of Inl e \<Rightarrow> m \<notin> {2, 4, 8} | Inr q \<Rightarrow> bw q"
proof (cases "m \<in> {2, 4, 8}")
  case True
  then show ?thesis
    by (simp add: ordered_gray_px_def threshold_at_valid [OF True assms] bw_def)
next
  case False
  then show ?thesis
    by (auto simp: ordered_gray_px_def bw_def split: sum.splits)
qed

lemma ordered_color_px_cases:
  assumes "0 \<le> y" and "0 \<le> x"
  shows "case ordered_color_px palette m y x v of
           Inl e \<Rightarrow> m \<notin> {2, 4, 8} \<or> palette = []
         | Inr q \<Rightarrow> q \<in> np_array ` set palette"
proof (cases "threshold_at m y x")
  case (Inl e)
  then have "m \<notin> {2, 4, 8}"
    using threshold_at_valid [OF _ assms, of m] by auto
  with Inl show ?thesis by (simp add: ordered_color_px_def)
next
  case (Inr t)
  show ?thesis
  proof (cases "length palette = 2")
    case True
    then have "palette ! 0 \<in> set palette" "palette ! 1 \<in> set palette"
      by simp_all
    with Inr True show ?thesis by (simp add: ordered_color_px_def)
  next
    case False
    with Inr show ?thesis
      by (simp add: ordered_color_px_def nearest_Inl nearest_Inr split: sum.splits)
  qed
qed

lemma ordered_outcome:
  assumes "rect_raster h w image_in"
  shows "outcome_ok ((matrix_size \<notin> {2, 4, 8} \<or> is_color \<and> active_palette palette = [])
             \<or> \<not> fits image_in is_color)
           h w is_color (active_palette palette)
           (ordered_dither image_in matrix_size is_color palette)"
  unfolding ordered_dither_def
proof (rule dither_outcome [where gray_body = "\<lambda>h w. ordered_gray_body matrix_size"
        and color_body = "\<lambda>h w. ordered_color_body (active_palette palette) matrix_size", OF assms])
  fix img :: "real grid" and y x
  assume a: "rect h w img" "inside h w y x"
  then have p: "0 \<le> y" "0 \<le> x" by (simp_all add: inside_def)
  show "step_ok (matrix_size \<notin> {2, 4, 8} \<or> is_color \<and> active_palette palette = []) bw h w y x img
          (ordered_gray_body matrix_size y x img)"
    unfolding ordered_gray_body_pointwise [OF a]
    by (rule step_ok_pointwise [OF a])
      (use ordered_gray_px_cases [OF p, of matrix_size "px img y x"] in auto)
next
  fix img :: "rgb grid" and y x
  assume c: is_color and a: "rect h w img" "inside h w y x"
  then have p: "0 \<le> y" "0 \<le> x" by (simp_all add: inside_def)
  show "step_ok (matrix_size \<notin> {2, 4, 8} \<or> is_color \<and> active_palette palette = [])
          (\<lambda>v. v \<in> np_array ` set (active_palette palette)) h w y x img
          (ordered_color_body (active_palette palette) matrix_size y x img)"
    unfolding ordered_color_body_pointwise [OF a]
    by (rule step_ok_pointwise [OF a])
      (use c ordered_color_px_cases [OF p, where palette = "active_palette palette"
            and m = matrix_size and v = "px img y x"] in auto)
qed

lemma random_outcome:
  assumes "rect_raster h w image_in"
  shows "outcome_ok (is_color \<and> active_palette palette = [] \<or> \<not> fits image_in is_color)
           h w is_color (active_palette palette)
           (random_dither py_random np_random image_in threshold_variance is_color palette)"
  unfolding random_dither_def
proof (rule dither_outcome [where gray_body = "\<lambda>h w. random_gray_body py_random threshold_variance"
        and color_body = "\<lambda>h w. random_color_body np_random (active_palette palette) threshold_variance",
        OF assms])
  fix img :: "real grid" and y x
  assume a: "rect h w img" "inside h w y x"
  show "step_ok (is_color \<and> active_palette palette = []) bw h w y x img
          (random_gray_body py_random threshold_variance y x img)"
    unfolding random_gray_body_pointwise [OF a]
    by (rule step_ok_pointwise [OF a]) (auto simp: random_gray_px_def bw_def)
next
  fix img :: "rgb grid" and y x
  assume c: is_color and a: "rect h w img" "inside h w y x"
  obtain u1 u2 u3 where u: "np_random y x = (u1, u2, u3)"
    by (cases "np_random y x") auto
  show "step_ok (is_color \<and> active_palette palette = [])
          (\<lambda>v. v \<in> np_array ` set (active_palette palette)) h w y x img
          (random_color_body np_random (active_palette palette) threshold_variance y x img)"
    unfolding random_color_body_pointwise [OF a]
    by (rule step_ok_pointwise [OF a])
      (use c u in \<open>simp_all add: random_color_px_def nearest_Inl nearest_Inr\<close>)
qed

lemma apply_dithering_outcome:
  assumes "rect_raster h w image_in"
  shows "outcome_ok (\<not> valid_call image_in method is_color kw) h w is_color
           (active_palette (kw_palette kw))
           (apply_dithering py_random np_random image_in method is_color kw)"
proof -
  let ?ok = "outcome_ok (\<not> valid_call image_in method is_color kw) h w is_color
           (active_palette (kw_palette kw))"
  have err: "?ok (Inl e)" if "\<not> valid_call image_in method is_color kw" for e
    using that by (simp add: outcome_ok_def)
  consider (fs) "method = ''floyd_steinberg''" | (atk) "method = ''atkinson''"
    | (jjn) "method = ''jarvis_judice_ninke''" | (ord) "method = ''ordered''"
    | (rnd) "method = ''random''"
    | (other) "method \<notin> {''floyd_steinberg'', ''atkinson'', ''jarvis_judice_ninke'', ''ordered'', ''random''}"
    by auto
  then show ?thesis
  proof cases
    case fs
    show ?thesis
    proof (cases "kw_matrix_size kw \<noteq> None \<or> kw_threshold_variance kw \<noteq> None")
      case True
      then have "\<not> valid_call image_in method is_color kw"
        using fs by (auto simp: valid_call_def)
      from err [OF this] True fs show ?thesis by (simp add: apply_dithering_def)
    next
      case False
      have "?ok (floyd_steinberg_dither image_in (or_default (kw_dither_strength kw) 1) is_color (kw_palette kw))"
        by (rule outcome_ok_weaken [OF floyd_steinberg_outcome [OF assms]])
          (use fs False in \<open>auto simp: valid_call_def\<close>)
      with False fs show ?thesis by (simp add: apply_dithering_def)
    qed
  next
    case atk
    show ?thesis
    proof (cases "kw_matrix_size kw \<noteq> None \<or> kw_threshold_variance kw \<noteq> None")
      case True
      then have "\<not> valid_call image_in method is_color kw"
        using atk by (auto simp: valid_call_def)
      from err [OF this] True atk show ?thesis by (simp add: apply_dithering_def)
    next
      case False
      have "?ok (atkinson_dither image_in (or_default (kw_dither_strength kw) 1) is_color (kw_palette kw))"
        by (rule outcome_ok_weaken [OF atkinson_outcome [OF assms]])
          (use atk False in \<open>auto simp: valid_call_def\<close>)
      with False atk show ?thesis by (simp add: apply_dithering_def)
    qed
  next
    case jjn
    show ?thesis
    proof (cases "kw_matrix_size kw \<noteq> None \<or> kw_threshold_variance kw \<noteq> None")
      case True
      then have "\<not> valid_call image_in method is_color kw"
        using jjn by (auto simp: valid_call_def)
      from err [OF this] True jjn show ?thesis by (simp add: apply_dithering_def)
    next
      case False
      have "?ok (jarvis_judice_ninke_dither image_in (or_default (kw_dither_strength kw) 1) is_color (kw_palette kw))"
        by (rule outcome_ok_weaken [OF jarvis_judice_ninke_outcome [OF assms]])
          (use jjn False in \<open>auto simp: valid_call_def\<close>)
      with False jjn show ?thesis by (simp add: apply_dithering_def)
    qed
  next
    case ord
    show ?thesis
    proof (cases "kw_dither_strength kw \<noteq> None \<or> kw_threshold_variance kw \<noteq> None")
      case True
      then have "\<not> valid_call image_in method is_color kw"
        using ord by (auto simp: valid_call_def)
      from err [OF this] True ord show ?thesis by (simp add: apply_dithering_def)
    next
      case False
      have "?ok (ordered_dither image_in (or_default (kw_matrix_size kw) 4) is_color (kw_palette kw))"
        by (rule outcome_ok_weaken [OF ordered_outcome [OF assms]])
          (use ord False in \<open>auto simp: valid_call_def\<close>)
      with False ord show ?thesis by (simp add: apply_dithering_def)
    qed
  next
    case rnd
    show ?thesis
    proof (cases "kw_dither_strength kw \<noteq> None \<or> kw_matrix_size kw \<noteq> None")
      case True
      then have "\<not> valid_call image_in method is_color kw"
        using rnd by (auto simp: valid_call_def)
      from err [OF this] True rnd show ?thesis by (simp add: apply_dithering_def)
    next
      case False
      have "?ok (random_dither py_random np_random image_in (or_default (kw_threshold_variance kw) 50) is_color (kw_palette kw))"
        by (rule outcome_ok_weaken [OF random_outcome [OF assms]])
          (use rnd False in \<open>auto simp: valid_call_def\<close>)
      with False rnd show ?thesis by (simp add: apply_dithering_def)
    qed
  next
    case other
    then have "\<not> valid_call image_in method is_color kw"
      by (auto simp: valid_call_def)
    from err [OF this] other show ?thesis by (simp add: apply_dithering_def)
  qed
qed

lemmas eval_defs = apply_dithering_def or_default_def floyd_steinberg_dither_def dither_def
  run_gray_def run_color_def scan_def shape_def astype_float_def astype_float3_def
  for_range_def fs_gray_body_def fs_color_body_def getitem_def setitem_def moditem_def
  norm_index_def when_do_def clip_uint8_def clip_uint8_3_def to_uint8_def clip_def Let_def
  upto.simps nearest_def distances_def argmin_def active_palette_def default_palette_def
  no_kwargs_def

section \<open>Palette closure, shape preservation and boundary safety\<close>

lemma dither_Inr_fits: "dither image_in is_color cb gb = Inr out \<Longrightarrow> fits image_in is_color"
  by (auto simp: dither_def fits_def split: if_splits raster.splits)

lemma apply_dithering_Inr_fits:
  "apply_dithering py_random np_random image_in method is_color kw = Inr out \<Longrightarrow>
     fits image_in is_color"
  by (auto simp: apply_dithering_def floyd_steinberg_dither_def atkinson_dither_def
      jarvis_judice_ninke_dither_def ordered_dither_def random_dither_def
      split: if_splits dest: dither_Inr_fits)

lemma rect_lengths: "rect h w g \<Longrightarrow> map length g = replicate h w"
  by (auto simp: rect_def map_replicate_const [symmetric] intro!: map_cong)

lemma outcome_ok_returns:
  "outcome_ok False h w is_color palette res \<Longrightarrow> \<exists>out. res = Inr out"
  by (cases res) (auto simp: outcome_ok_def)

lemma apply_dithering_returns:
  assumes "rect_raster h w image_in" and "valid_call image_in method is_color kw"
  shows "\<exists>out. apply_dithering py_random np_random image_in method is_color kw = Inr out"
  using apply_dithering_outcome [OF assms(1), of "method" is_color kw py_random np_random] assms(2)
  by (auto intro: outcome_ok_returns)


lemma apply_dithering_same_shape:
  assumes "rect_raster h w image_in"
    and "apply_dithering py_random np_random image_in method is_color kw = Inr out"
  shows "same_shape image_in out"
proof -
  have f: "fits image_in is_color"
    using assms(2) by (rule apply_dithering_Inr_fits)
  from apply_dithering_outcome [OF assms(1), of "method" is_color kw py_random np_random] assms f
  show ?thesis
    by (auto simp: outcome_ok_def same_shape_def fits_def rect_raster_def rect_lengths
        split: raster.splits)
qed



text \<open>
  Claim C7. Shape preservation: for every method and every valid call, \<^verbatim>\<open>apply_dithering\<close>
  returns a raster with the rows, the row lengths and the channel count of the input;
  and so has every raster it returns on any call.
\<close>

theorem shape_preserved:
  assumes "rect_raster h w image_in"
  shows "(valid_call image_in method is_color kw \<longrightarrow>
            (\<exists>out. apply_dithering py_random np_random image_in method is_color kw = Inr out
               \<and> same_shape image_in out))
       \<and> (\<forall>out. apply_dithering py_random np_random image_in method is_color kw = Inr out \<longrightarrow>
            same_shape image_in out)"
  using assms
  by (meson apply_dithering_same_shape apply_dithering_returns)

theorem shape_preserved_witness:
  "rect_raster 2 2 (Gray [[100, 150], [200, 50]])
   \<and> valid_call (Gray [[100, 150], [200, 50]]) ''floyd_steinberg'' False no_kwargs
   \<and> apply_dithering (\<lambda>y x. 0) (\<lambda>y x. (0, 0, 0)) (Gray [[100, 150], [200, 50]])
        ''floyd_steinberg'' False no_kwargs = Inr (Gray [[0, 255], [255, 0]])
   \<and> same_shape (Gray [[100, 150], [200, 50]]) (Gray [[0, 255], [255, 0]])"
proof -
  have r: "rect_raster 2 2 (Gray [[100, 150], [200, 50]])"
    by (simp add: rect_raster_def rect_def)
  have c: "valid_call (Gray [[100, 150], [200, 50]]) ''floyd_steinberg'' False no_kwargs"
    by (simp add: valid_call_def fits_def no_kwargs_def)
  have e: "apply_dithering (\<lambda>y x. 0) (\<lambda>y x. (0, 0, 0)) (Gray [[100, 150], [200, 50]])
        ''floyd_steinberg'' False no_kwargs = Inr (Gray [[0, 255], [255, 0]])"
    by (simp add: eval_defs)
  from shape_preserved [OF r, of "''floyd_steinberg''" False no_kwargs "\<lambda>y x. 0" "\<lambda>y x. (0, 0, 0)"] e
  have "same_shape (Gray [[100, 150], [200, 50]]) (Gray [[0, 255], [255, 0]])"
    by blast
  with r c e show ?thesis by blast
qed



section \<open>Dither strength zero\<close>

lemma idle_block_Nil: "idle h w (block [])"
  by (simp add: idle_def)

lemma idle_block_Cons: "idle h w c \<Longrightarrow> idle h w (block cs) \<Longrightarrow> idle h w (block (c # cs))"
  by (simp add: idle_def)

lemma idle_when: "(b \<Longrightarrow> idle h w c) \<Longrightarrow> idle h w (when_do b c)"
  by (simp add: idle_def when_do_def)

lemma idle_moditem: "inside h w y x \<Longrightarrow> (\<And>v. f v = v) \<Longrightarrow> idle h w (moditem y x f)"
  by (simp add: idle_def moditem_inside put_same)

lemmas idle_rules = idle_block_Nil idle_block_Cons idle_when idle_moditem

lemma quantize_then_idle:
  assumes "rect h w img" and "inside h w y x" and "idle h w (block tail)"
  shows "block (setitem y x q # tail) img = (None, put img y x q)"
  using assms rect_put [OF assms(1), of y x q]
  by (simp add: setitem_inside idle_def)

lemma fs_idle_tail:
  assumes "inside h w y x" and "\<And>v. f1 v = v" "\<And>v. f2 v = v" "\<And>v. f3 v = v" "\<And>v. f4 v = v"
  shows "idle h w (block
     [when_do (x + 1 < int w) (moditem y (x + 1) f1),
      when_do (y + 1 < int h) (block
        [when_do (x > 0) (moditem (y + 1) (x - 1) f2),
         moditem (y + 1) x f3,
         when_do (x + 1 < int w) (moditem (y + 1) (x + 1) f4)])])"
  using assms by (auto intro!: idle_rules simp: inside_def)

lemma atkinson_idle_tail:
  assumes "inside h w y x" and "\<And>v. f v = v"
  shows "idle h w (block
     [when_do (x + 1 < int w) (moditem y (x + 1) f),
      when_do (x + 2 < int w) (moditem y (x + 2) f),
      when_do (y + 1 < int h) (block
        [when_do (x > 0) (moditem (y + 1) (x - 1) f),
         moditem (y + 1) x f,
         when_do (x + 1 < int w) (moditem (y + 1) (x + 1) f)]),
      when_do (y + 2 < int h) (moditem (y + 2) x f)])"
  using assms by (auto intro!: idle_rules simp: inside_def)

lemma jjn_idle_tail:
  assumes "inside h w y x" and "\<And>v. f1 v = v" "\<And>v. f2 v = v" "\<And>v. f3 v = v"
    "\<And>v. f4 v = v" "\<And>v. f5 v = v" "\<And>v. f6 v = v" "\<And>v. f7 v = v" "\<And>v. f8 v = v"
    "\<And>v. f9 v = v" "\<And>v. f10 v = v" "\<And>v. f11 v = v" "\<And>v. f12 v = v"
  shows "idle h w (block
     [when_do (x + 1 < int w) (moditem y (x + 1) f1),
      when_do (x + 2 < int w) (moditem y (x + 2) f2),
      when_do (y + 1 < int h) (block
        [when_do (x > 1) (moditem (y + 1) (x - 2) f3),
         when_do (x > 0) (moditem (y + 1) (x - 1) f4),
         moditem (y + 1) x f5,
         when_do (x + 1 < int w) (moditem (y + 1) (x + 1) f6),
         when_do (x + 2 < int w) (moditem (y + 1) (x + 2) f7)]),
      when_do (y + 2 < int h) (block
        [when_do (x > 1) (moditem (y + 2) (x - 2) f8),
         when_do (x > 0) (moditem (y + 2) (x - 1) f9),
         moditem (y + 2) x f10,
         when_do (x + 1 < int w) (moditem (y + 2) (x + 1) f11),
         when_do (x + 2 < int w) (moditem (y + 2) (x + 2) f12)])])"
  using assms by (auto intro!: idle_rules simp: inside_def)

lemma fs_only_quantizes: "only_quantizes h w (fs_gray_body 0)"
  unfolding only_quantizes_def
proof (intro allI impI)
  fix img :: "real grid" and y x
  assume a: "rect h w img" "inside h w y x"
  show "fs_gray_body 0 (int h) (int w) y x img =
          (None, put img y x (if px img y x > 128 then 255 else 0))"
    unfolding fs_gray_body_def getitem_inside [OF a] Let_def sum.case
    by (rule quantize_then_idle [OF a fs_idle_tail [OF a(2)]]) simp_all
qed

lemma atkinson_only_quantizes: "only_quantizes h w (atkinson_gray_body 0)"
  unfolding only_quantizes_def
proof (intro allI impI)
  fix img :: "real grid" and y x
  assume a: "rect h w img" "inside h w y x"
  show "atkinson_gray_body 0 (int h) (int w) y x img =
          (None, put img y x (if px img y x > 128 then 255 else 0))"
    unfolding atkinson_gray_body_def getitem_inside [OF a] Let_def sum.case
    by (rule quantize_then_idle [OF a atkinson_idle_tail [OF a(2)]]) simp_all
qed

lemma jjn_only_quantizes: "only_quantizes h w (jjn_gray_body 0)"
  unfolding only_quantizes_def
proof (intro allI impI)
  fix img :: "real grid" and y x
  assume a: "rect h w img" "inside h w y x"
  show "jjn_gray_body 0 (int h) (int w) y x img =
          (None, put img y x (if px img y x > 128 then 255 else 0))"
    unfolding jjn_gray_body_def getitem_inside [OF a] Let_def sum.case
    by (rule quantize_then_idle [OF a jjn_idle_tail [OF a(2)]]) simp_all
qed

lemma gt_128_unat: "(128 < (unsigned v :: real)) = (128 < unat v)"
proof -
  have "(real 128 < real (unat v)) = (128 < unat v)"
    by (rule of_nat_less_iff)
  then show ?thesis by simp
qed

lemma px_astype_float:
  "rect h w g \<Longrightarrow> inside h w y x \<Longrightarrow> px (astype_float g) y x = real (unat (px g y x))"
  by (simp add: astype_float_def px_map)

lemma px_clip_uint8:
  "rect h w img \<Longrightarrow> inside h w y x \<Longrightarrow> px (clip_uint8 img) y x = to_uint8 (px img y x)"
  by (simp add: clip_uint8_def px_map)

lemma run_gray_pointwise:
  assumes body: "\<And>img y x. rect h w img \<Longrightarrow> inside h w y x \<Longrightarrow>
      body (int h) (int w) y x img = pointwise (g y x (px img y x)) y x img"
    and r: "rect h w image_in"
  shows "case run_gray image_in body of
           Inl e \<Rightarrow> (\<exists>y x. inside h w y x \<and> g y x (px (astype_float image_in) y x) = Inl e)
         | Inr out \<Rightarrow> (\<exists>res. out = Gray res \<and> rect h w res \<and>
             (\<forall>y x. inside h w y x \<longrightarrow>
                (\<exists>v. g y x (px (astype_float image_in) y x) = Inr v \<and> px res y x = to_uint8 v)))"
proof -
  have r': "rect h w (astype_float image_in)" using r by simp
  have "case scan (astype_float image_in) body of
           (Some e, img') \<Rightarrow> (\<exists>y x. inside h w y x \<and> g y x (px (astype_float image_in) y x) = Inl e)
         | (None, img') \<Rightarrow> rect h w img' \<and>
             (\<forall>y x. inside h w y x \<longrightarrow> g y x (px (astype_float image_in) y x) = Inr (px img' y x))"
    by (rule scan_pointwise [where body = body and g = g and h = h and w = w]) (use body r' in auto)
  then show ?thesis
    by (auto simp: run_gray_def px_clip_uint8 split: prod.splits option.splits)
qed

lemma run_gray_only_quantizes:
  assumes "only_quantizes h w body" and "rect h w image_in"
  shows "run_gray image_in body = Inr (Gray (threshold_raster image_in))"
proof -
  let ?g = "\<lambda>(y::int) (x::int) v. (Inr (if v > 128 then 255 else 0 :: real) :: py_error + real)"
  have "case run_gray image_in body of
           Inl e \<Rightarrow> (\<exists>y x. inside h w y x \<and> ?g y x (px (astype_float image_in) y x) = Inl e)
         | Inr out \<Rightarrow> (\<exists>res. out = Gray res \<and> rect h w res \<and>
             (\<forall>y x. inside h w y x \<longrightarrow>
                (\<exists>v. ?g y x (px (astype_float image_in) y x) = Inr v \<and> px res y x = to_uint8 v)))"
    by (rule run_gray_pointwise [where g = ?g])
      (use assms in \<open>auto simp: only_quantizes_def pointwise_def\<close>)
  then obtain res where res: "run_gray image_in body = Inr (Gray res)" "rect h w res"
    "\<And>y x. inside h w y x \<Longrightarrow>
       px res y x = to_uint8 (if px (astype_float image_in) y x > 128 then 255 else 0)"
    by (auto split: sum.splits)
  have "res = threshold_raster image_in"
  proof (rule grid_eqI [of h w])
    show "rect h w res" by (rule res)
    show "rect h w (threshold_raster image_in)"
      using assms(2) by (simp add: threshold_raster_def)
    fix y x assume i: "inside h w y x"
    show "px res y x = px (threshold_raster image_in) y x"
      using res(3) [OF i] assms(2) i
      by (simp add: threshold_raster_def px_map px_astype_float gt_128_unat)
  qed
  with res show ?thesis by simp
qed

text \<open>
  Claim C6. With \<open>dither_strength = 0\<close> each of the three error-diffusion functions
  returns, on every grayscale raster, the raster of the per-pixel thresholds (255 where
  the input value is strictly greater than 128, else 0); and no error reaches a
  neighbor: each loop body then changes the pixel it visits and nothing else.
\<close>

theorem strength_zero_is_thresholding:
  assumes "rect h w image_in"
  shows "floyd_steinberg_dither (Gray image_in) 0 False palette = Inr (Gray (threshold_raster image_in))
       \<and> atkinson_dither (Gray image_in) 0 False palette = Inr (Gray (threshold_raster image_in))
       \<and> jarvis_judice_ninke_dither (Gray image_in) 0 False palette
            = Inr (Gray (threshold_raster image_in))
       \<and> only_quantizes h w (fs_gray_body 0)
       \<and> only_quantizes h w (atkinson_gray_body 0)
       \<and> only_quantizes h w (jjn_gray_body 0)"
  using assms
  by (simp add: floyd_steinberg_dither_def atkinson_dither_def jarvis_judice_ninke_dither_def
      dither_def run_gray_only_quantizes fs_only_quantizes atkinson_only_quantizes
      jjn_only_quantizes)

theorem strength_zero_is_thresholding_witness:
  "rect 2 2 [[100, 100], [200, 50 :: u8]]
   \<and> floyd_steinberg_dither (Gray [[100, 100], [200, 50]]) 0 False None
        = Inr (Gray [[0, 0], [255, 0]])
   \<and> atkinson_dither (Gray [[100, 100], [200, 50]]) 0 False None = Inr (Gray [[0, 0], [255, 0]])
   \<and> jarvis_judice_ninke_dither (Gray [[100, 100], [200, 50]]) 0 False None
        = Inr (Gray [[0, 0], [255, 0]])
   \<and> floyd_steinberg_dither (Gray [[100, 100], [200, 50]]) 1 False None
        = Inr (Gray [[0, 255], [255, 0]])"
proof -
  have r: "rect 2 2 [[100, 100], [200, 50 :: u8]]"
    by (simp add: rect_def)
  have t: "threshold_raster [[100, 100], [200, 50]] = [[0, 0], [255, 0]]"
    by (simp add: threshold_raster_def)
  have e: "floyd_steinberg_dither (Gray [[100, 100], [200, 50]]) 1 False None
        = Inr (Gray [[0, 255], [255, 0]])"
    by (simp add: eval_defs)
  from strength_zero_is_thresholding [OF r, of None] r e show ?thesis
    by (simp add: t)
qed

section \<open>Ordered dithering\<close>

lemma bayer_canonical_values:
  "bayer_canonical 1 = bayer2" "bayer_canonical 2 = bayer4" "bayer_canonical 3 = bayer8"
  by (simp_all add: bayer2_def bayer4_def bayer8_def numeral_2_eq_2 numeral_3_eq_3)

lemma bayer_matrix_canonical:
  "bayer_matrix 2 = divide_by (bayer_canonical 1) 4"
  "bayer_matrix 4 = divide_by (bayer_canonical 2) 16"
  "bayer_matrix 8 = divide_by (bayer_canonical 3) 64"
  unfolding bayer_canonical_values by (simp_all add: bayer_matrix_def)

lemma ordered_gray_px_valid:
  assumes "m \<in> {2, 4, 8}" and "inside h w y x"
  shows "ordered_gray_px m y x v =
           Inr (if v > px (bayer_matrix m) (y mod m) (x mod m) * 255 then 255 else 0)"
  using assms by (simp add: ordered_gray_px_def threshold_at_valid inside_def)

lemmas ordered_eval_defs = ordered_dither_def ordered_gray_body_def ordered_color_body_def
  threshold_at_def py_mod_def bayer_matrix_def divide_by_def bayer2_def bayer4_def bayer8_def
  mean3.simps

text \<open>
  Claim C4. For every grayscale raster and a matrix size of 2, 4 or 8, \<^verbatim>\<open>ordered_dither\<close>
  returns the raster whose pixel \<open>(y, x)\<close> is 255 if the input value at \<open>(y, x)\<close> is
  strictly greater than \<open>bayer_matrix[y mod size][x mod size] * 255\<close> and 0 otherwise,
  a value that depends on \<open>y\<close>, \<open>x\<close> and the input pixel alone; the matrices are the
  Bayer index matrices of the usual recursive construction divided by 4, 16 and 64.
\<close>

theorem ordered_gray_threshold:
  assumes "rect h w image_in" and "matrix_size \<in> {2, 4, 8}"
  shows "(\<exists>out. ordered_dither (Gray image_in) matrix_size False palette = Inr (Gray out)
            \<and> rect h w out
            \<and> (\<forall>y x. inside h w y x \<longrightarrow>
                 px out y x =
                   (if real (unat (px image_in y x))
                       > px (bayer_matrix matrix_size) (y mod matrix_size) (x mod matrix_size) * 255
                    then 255 else 0)))
       \<and> bayer_matrix 2 = divide_by (bayer_canonical 1) 4
       \<and> bayer_matrix 4 = divide_by (bayer_canonical 2) 16
       \<and> bayer_matrix 8 = divide_by (bayer_canonical 3) 64"
proof -
  let ?g = "ordered_gray_px matrix_size"
  let ?body = "\<lambda>(h::int) (w::int). ordered_gray_body matrix_size"
  have "case run_gray image_in ?body of
           Inl e \<Rightarrow> (\<exists>y x. inside h w y x \<and> ?g y x (px (astype_float image_in) y x) = Inl e)
         | Inr out \<Rightarrow> (\<exists>res. out = Gray res \<and> rect h w res \<and>
             (\<forall>y x. inside h w y x \<longrightarrow>
                (\<exists>v. ?g y x (px (astype_float image_in) y x) = Inr v \<and> px res y x = to_uint8 v)))"
    by (rule run_gray_pointwise [where g = ?g and body = ?body])
      (use assms(1) in \<open>simp_all add: ordered_gray_body_pointwise\<close>)
  then have "\<exists>out. run_gray image_in ?body = Inr (Gray out) \<and> rect h w out
            \<and> (\<forall>y x. inside h w y x \<longrightarrow>
                 px out y x =
                   (if real (unat (px image_in y x))
                       > px (bayer_matrix matrix_size) (y mod matrix_size) (x mod matrix_size) * 255
                    then 255 else 0))"
    using assms(1)
    by (cases "run_gray image_in ?body")
      (auto simp: ordered_gray_px_valid [OF assms(2)] px_astype_float)
  then have "\<exists>out. ordered_dither (Gray image_in) matrix_size False palette = Inr (Gray out)
            \<and> rect h w out
            \<and> (\<forall>y x. inside h w y x \<longrightarrow>
                 px out y x =
                   (if real (unat (px image_in y x))
                       > px (bayer_matrix matrix_size) (y mod matrix_size) (x mod matrix_size) * 255
                    then 255 else 0))"
    by (simp add: ordered_dither_def dither_def)
  then show ?thesis
    using bayer_matrix_canonical by blast
qed

theorem ordered_gray_threshold_witness:
  "rect 4 4 [[128, 128, 128, 128], [128, 128, 128, 128], [128, 128, 128, 128], [128, 128, 128, 128 :: u8]]
   \<and> (4 :: int) \<in> {2, 4, 8}
   \<and> ordered_dither
        (Gray [[128, 128, 128, 128], [128, 128, 128, 128], [128, 128, 128, 128], [128, 128, 128, 128]])
        4 False None
      = Inr (Gray [[255, 255, 255, 0], [0, 255, 0, 255], [255, 0, 255, 0], [0, 255, 0, 255]])
   \<and> px (bayer_matrix 4) (1 mod 4) (2 mod 4) * 255 = 223.125
   \<and> px [[255, 255, 255, 0], [0, 255, 0, 255], [255, 0, 255, 0], [0, 255, 0, 255 :: u8]] 1 2
       = (if real (unat (px [[128, 128, 128, 128], [128, 128, 128, 128], [128, 128, 128, 128],
                            [128, 128, 128, 128 :: u8]] 1 2))
             > px (bayer_matrix 4) (1 mod 4) (2 mod 4) * 255 then 255 else 0)"
proof -
  let ?img = "[[128, 128, 128, 128], [128, 128, 128, 128], [128, 128, 128, 128], [128, 128, 128, 128 :: u8]]"
  have r: "rect 4 4 ?img"
    by (simp add: rect_def)
  have m: "(4 :: int) \<in> {2, 4, 8}"
    by simp
  have e: "ordered_dither (Gray ?img) 4 False None
      = Inr (Gray [[255, 255, 255, 0], [0, 255, 0, 255], [255, 0, 255, 0], [0, 255, 0, 255]])"
    by (simp add: eval_defs ordered_eval_defs)
  have i: "inside 4 4 1 2"
    by (simp add: inside_def)
  have t: "px (bayer_matrix 4) (1 mod 4) (2 mod 4) * 255 = 223.125"
    by (simp add: px_def bayer_matrix_def divide_by_def bayer4_def)
  from ordered_gray_threshold [OF r m, of None] e i
  have "px [[255, 255, 255, 0], [0, 255, 0, 255], [255, 0, 255, 0], [0, 255, 0, 255 :: u8]] 1 2
       = (if real (unat (px ?img 1 2)) > px (bayer_matrix 4) (1 mod 4) (2 mod 4) * 255 then 255 else 0)"
    by auto
  with r m e t show ?thesis by blast
qed







section \<open>Floyd-Steinberg and the procedure of the specification\<close>
















section \<open>The error that Atkinson dithering distributes\<close>















section \<open>The input array is left unchanged\<close>

lemma untouched_refl: "untouched st st"
  by (simp add: untouched_def)

lemma untouched_trans: "untouched a b \<Longrightarrow> untouched b c \<Longrightarrow> untouched a c"
  by (auto simp: untouched_def)

lemma untouched_alloc: "untouched st (snd (alloc v st))"
  by (simp add: untouched_def alloc_def)

lemma local_to_on_cell: "local_to a (on_cell rd wr a c)"
  by (auto simp: local_to_def on_cell_def split: option.splits prod.splits)

lemma local_to_block: "(\<And>c. c \<in> set cs \<Longrightarrow> local_to a c) \<Longrightarrow> local_to a (block cs)"
proof (induction cs)
  case Nil
  show ?case by (simp add: local_to_def)
next
  case (Cons c cs)
  have c: "local_to a c" and cs: "local_to a (block cs)"
    using Cons by auto
  show ?case
    unfolding local_to_def
  proof (intro allI)
    fix st
    show "next_addr (snd (block (c # cs) st)) = next_addr st \<and>
          (\<forall>b. b \<noteq> a \<longrightarrow> cells (snd (block (c # cs) st)) b = cells st b)"
    proof (cases "c st")
      case (Pair r st1)
      then have 1: "next_addr st1 = next_addr st" "\<forall>b. b \<noteq> a \<longrightarrow> cells st1 b = cells st b"
        using c unfolding local_to_def by (metis snd_conv)+
      show ?thesis
      proof (cases r)
        case None
        have "next_addr (snd (block cs st1)) = next_addr st1"
          "\<forall>b. b \<noteq> a \<longrightarrow> cells (snd (block cs st1)) b = cells st1 b"
          using cs unfolding local_to_def by blast+
        with 1 Pair None show ?thesis by simp
      next
        case (Some e)
        with 1 Pair show ?thesis by simp
      qed
    qed
  qed
qed

lemma local_to_for_range: "(\<And>i. local_to a (body i)) \<Longrightarrow> local_to a (for_range n body)"
  unfolding for_range_def by (rule local_to_block) auto

lemma local_to_untouched:
  assumes "local_to a c" and "next_addr st0 \<le> a" and "untouched st0 st"
  shows "untouched st0 (snd (c st))"
  using assms by (auto simp: local_to_def untouched_def)

lemma lifts_on_cell: "(\<And>g. rd (wr g) = Some g) \<Longrightarrow> lifts rd wr a (on_cell rd wr a c) c"
  by (simp add: lifts_def on_cell_def)

lemma lifts_block:
  "list_all2 (lifts rd wr a) Fs Gs \<Longrightarrow> lifts rd wr a (block Fs) (block Gs)"
proof (induction Fs Gs rule: list_all2_induct)
  case Nil
  have "st = st\<lparr>cells := (cells st)(a \<mapsto> wr g)\<rparr>" if "cells st a = Some (wr g)" for st :: heap and g
  proof -
    from that have "(cells st)(a \<mapsto> wr g) = cells st"
      by (rule map_upd_triv)
    then show ?thesis by simp
  qed
  then show ?case by (simp add: lifts_def)
next
  case (Cons F Fs G Gs)
  show ?case
    unfolding lifts_def
  proof (intro allI impI)
    fix st :: heap and g
    assume c: "cells st a = Some (wr g)"
    obtain r g1 where G: "G g = (r, g1)" by (cases "G g") auto
    let ?st1 = "st\<lparr>cells := (cells st)(a \<mapsto> wr g1)\<rparr>"
    have F: "F st = (r, ?st1)"
      using Cons.hyps(1) c G by (simp add: lifts_def)
    show "block (F # Fs) st =
            (case block (G # Gs) g of (r, g') \<Rightarrow> (r, st\<lparr>cells := (cells st)(a \<mapsto> wr g')\<rparr>))"
    proof (cases r)
      case None
      have "cells ?st1 a = Some (wr g1)" by simp
      then have "block Fs ?st1 =
          (case block Gs g1 of (r, g') \<Rightarrow> (r, ?st1\<lparr>cells := (cells ?st1)(a \<mapsto> wr g')\<rparr>))"
        using Cons.IH unfolding lifts_def by blast
      with None F G show ?thesis
        by (simp split: prod.splits)
    next
      case (Some e)
      with F G show ?thesis by simp
    qed
  qed
qed

lemma lifts_for_range:
  assumes "\<And>i. lifts rd wr a (F i) (G i)"
  shows "lifts rd wr a (for_range n F) (for_range n G)"
  unfolding for_range_def
  by (rule lifts_block) (simp add: list_all2_map1 list_all2_map2 list_all2_same assms)

lemma lifts_scan:
  assumes "\<And>g. rd (wr g) = Some g"
  shows "lifts rd wr a
           (for_range h (\<lambda>y. for_range w (\<lambda>x. on_cell rd wr a (body y x))))
           (for_range h (\<lambda>y. for_range w (\<lambda>x. body y x)))"
  by (intro lifts_for_range lifts_on_cell assms)

lemma as_acc_Acc: "as_acc (Acc g) = Some g"
  by simp

lemma as_accC_AccC: "as_accC (AccC g) = Some g"
  by simp

lemma scan_heap_gray:
  assumes "cells st img = Some (Acc g)"
  shows "for_range h (\<lambda>y. for_range w (\<lambda>x. on_gray img (body y x))) st =
           (case for_range h (\<lambda>y. for_range w (\<lambda>x. body y x)) g of
              (r, g') \<Rightarrow> (r, st\<lparr>cells := (cells st)(img \<mapsto> Acc g')\<rparr>))"
  using lifts_scan [of as_acc Acc img h w body, OF as_acc_Acc] assms
  unfolding lifts_def on_gray_def by blast

lemma scan_heap_color:
  assumes "cells st img = Some (AccC g)"
  shows "for_range h (\<lambda>y. for_range w (\<lambda>x. on_color img (body y x))) st =
           (case for_range h (\<lambda>y. for_range w (\<lambda>x. body y x)) g of
              (r, g') \<Rightarrow> (r, st\<lparr>cells := (cells st)(img \<mapsto> AccC g')\<rparr>))"
  using lifts_scan [of as_accC AccC img h w body, OF as_accC_AccC] assms
  unfolding lifts_def on_color_def by blast

lemma run_gray_heap_result:
  assumes "cells st img = Some (Acc (astype_float g))" and "next_addr st0 \<le> img"
    and "img < next_addr st" and "untouched st0 st"
  shows "fresh_result st0 (run_gray_heap img body st)
       \<and> agrees (run_gray_heap img body st) (run_gray g body)"
proof -
  obtain h w where sh: "shape (astype_float g) = (h, w)"
    by (cases "shape (astype_float g)") auto
  obtain r g' where sc: "for_range h (\<lambda>y. for_range w (\<lambda>x. body h w y x)) (astype_float g) = (r, g')"
    by (cases "for_range h (\<lambda>y. for_range w (\<lambda>x. body h w y x)) (astype_float g)") auto
  let ?st2 = "st\<lparr>cells := (cells st)(img \<mapsto> Acc g')\<rparr>"
  have u2: "untouched st0 ?st2"
    using assms(2,4) by (auto simp: untouched_def)
  show ?thesis
  proof (cases r)
    case None
    have "run_gray_heap img body st = return_uint8 img ?st2"
      by (simp add: run_gray_heap_def assms(1) sh scan_heap_gray [OF assms(1)] sc None)
    moreover have "run_gray g body = Inr (Gray (clip_uint8 g'))"
      by (simp add: run_gray_def scan_def sh sc None)
    ultimately show ?thesis
      using u2 assms(2,3)
      by (auto simp: fresh_result_def agrees_def return_uint8_def alloc_def untouched_def)
  next
    case (Some e)
    have "run_gray_heap img body st = (Inl e, ?st2)"
      by (simp add: run_gray_heap_def assms(1) sh scan_heap_gray [OF assms(1)] sc Some)
    moreover have "run_gray g body = Inl e"
      by (simp add: run_gray_def scan_def sh sc Some)
    ultimately show ?thesis
      using u2 by (simp add: fresh_result_def agrees_def)
  qed
qed

lemma run_color_heap_result:
  assumes "cells st img = Some (AccC (astype_float3 g))" and "next_addr st0 \<le> img"
    and "img < next_addr st" and "untouched st0 st"
  shows "fresh_result st0 (run_color_heap img body st)
       \<and> agrees (run_color_heap img body st) (run_color g body)"
proof -
  obtain h w where sh: "shape (astype_float3 g) = (h, w)"
    by (cases "shape (astype_float3 g)") auto
  obtain r g' where sc: "for_range h (\<lambda>y. for_range w (\<lambda>x. body h w y x)) (astype_float3 g) = (r, g')"
    by (cases "for_range h (\<lambda>y. for_range w (\<lambda>x. body h w y x)) (astype_float3 g)") auto
  let ?st2 = "st\<lparr>cells := (cells st)(img \<mapsto> AccC g')\<rparr>"
  have u2: "untouched st0 ?st2"
    using assms(2,4) by (auto simp: untouched_def)
  show ?thesis
  proof (cases r)
    case None
    have "run_color_heap img body st = return_uint8 img ?st2"
      by (simp add: run_color_heap_def assms(1) sh scan_heap_color [OF assms(1)] sc None)
    moreover have "run_color g body = Inr (Color (clip_uint8_3 g'))"
      by (simp add: run_color_def scan_def sh sc None)
    ultimately show ?thesis
      using u2 assms(2,3)
      by (auto simp: fresh_result_def agrees_def return_uint8_def alloc_def untouched_def)
  next
    case (Some e)
    have "run_color_heap img body st = (Inl e, ?st2)"
      by (simp add: run_color_heap_def assms(1) sh scan_heap_color [OF assms(1)] sc Some)
    moreover have "run_color g body = Inl e"
      by (simp add: run_color_def scan_def sh sc Some)
    ultimately show ?thesis
      using u2 by (simp add: fresh_result_def agrees_def)
  qed
qed

lemma dither_heap_fresh: "fresh_result st (dither_heap st image_in is_color cb gb)"
  and dither_heap_agrees:
    "cells st image_in = Some (Raster r) \<Longrightarrow>
       agrees (dither_heap st image_in is_color cb gb) (dither r is_color cb gb)"
proof -
  have both: "fresh_result st (dither_heap st image_in is_color cb gb)
       \<and> agrees (dither_heap st image_in is_color cb gb) (dither r is_color cb gb)"
    if c: "cells st image_in = Some (Raster r)" for r
  proof -
    let ?img = "next_addr st"
    let ?st1 = "\<lparr>cells = (cells st)(?img \<mapsto> astype_float32 r), next_addr = Suc ?img\<rparr>"
    have d: "dither_heap st image_in is_color cb gb =
        (if is_color then run_color_heap ?img cb ?st1 else run_gray_heap ?img gb ?st1)"
      by (simp add: dither_heap_def c alloc_def)
    have u: "untouched st ?st1"
      by (simp add: untouched_def)
    show ?thesis
    proof (cases r)
      case (Gray g)
      show ?thesis
      proof (cases is_color)
        case True
        have "run_color_heap ?img cb ?st1 = (Inl ValueError, ?st1)"
          by (simp add: run_color_heap_def Gray astype_float32_def)
        with True Gray u show ?thesis
          unfolding d by (simp add: fresh_result_def agrees_def dither_def)
      next
        case False
        have "fresh_result st (run_gray_heap ?img gb ?st1)
            \<and> agrees (run_gray_heap ?img gb ?st1) (run_gray g gb)"
          by (rule run_gray_heap_result) (simp_all add: Gray astype_float32_def untouched_def)
        with False Gray show ?thesis
          unfolding d by (simp add: dither_def)
      qed
    next
      case (Color g)
      show ?thesis
      proof (cases is_color)
        case False
        have "run_gray_heap ?img gb ?st1 = (Inl ValueError, ?st1)"
          by (simp add: run_gray_heap_def Color astype_float32_def)
        with False Color u show ?thesis
          unfolding d by (simp add: fresh_result_def agrees_def dither_def)
      next
        case True
        have "fresh_result st (run_color_heap ?img cb ?st1)
            \<and> agrees (run_color_heap ?img cb ?st1) (run_color g cb)"
          by (rule run_color_heap_result) (simp_all add: Color astype_float32_def untouched_def)
        with True Color show ?thesis
          unfolding d by (simp add: dither_def)
      qed
    qed
  qed
  show "fresh_result st (dither_heap st image_in is_color cb gb)"
  proof (cases "\<exists>r. cells st image_in = Some (Raster r)")
    case True
    then show ?thesis using both by blast
  next
    case False
    then have "dither_heap st image_in is_color cb gb = (Inl TypeError, st)"
      by (auto simp: dither_heap_def split: option.splits ndarray.splits)
    then show ?thesis
      by (simp add: fresh_result_def untouched_refl)
  qed
  show "cells st image_in = Some (Raster r) \<Longrightarrow>
       agrees (dither_heap st image_in is_color cb gb) (dither r is_color cb gb)"
    using both by blast
qed

lemma fresh_result_input_kept:
  "fresh_result st res \<Longrightarrow> image_in < next_addr st \<Longrightarrow> input_kept st image_in res"
  by (auto simp: fresh_result_def input_kept_def untouched_def)

lemma dither_heap_input_kept:
  "image_in < next_addr st \<Longrightarrow> input_kept st image_in (dither_heap st image_in is_color cb gb)"
  by (rule fresh_result_input_kept [OF dither_heap_fresh])

text \<open>
  Claim C10. With arrays held in a store and each function taking the address of its
  input: every one of the five dithering functions copies the input into a newly
  allocated accumulator, mutates that accumulator alone, and returns the address of a
  newly allocated array. After the call, whether it returns or raises, the input array
  (and every other array that existed before) holds what it held, and the address
  returned is not the input's. What the function returns or raises is what the function
  on values returns or raises.
\<close>

theorem input_unchanged:
  assumes "image_in < next_addr st"
  shows "input_kept st image_in
           (floyd_steinberg_dither_heap st image_in dither_strength is_color palette)
       \<and> input_kept st image_in (atkinson_dither_heap st image_in dither_strength is_color palette)
       \<and> input_kept st image_in
           (jarvis_judice_ninke_dither_heap st image_in dither_strength is_color palette)
       \<and> input_kept st image_in (ordered_dither_heap st image_in matrix_size is_color palette)
       \<and> input_kept st image_in
           (random_dither_heap py_random np_random st image_in threshold_variance is_color palette)
       \<and> (cells st image_in = Some (Raster r) \<longrightarrow>
            agrees (floyd_steinberg_dither_heap st image_in dither_strength is_color palette)
              (floyd_steinberg_dither r dither_strength is_color palette)
          \<and> agrees (atkinson_dither_heap st image_in dither_strength is_color palette)
              (atkinson_dither r dither_strength is_color palette)
          \<and> agrees (jarvis_judice_ninke_dither_heap st image_in dither_strength is_color palette)
              (jarvis_judice_ninke_dither r dither_strength is_color palette)
          \<and> agrees (ordered_dither_heap st image_in matrix_size is_color palette)
              (ordered_dither r matrix_size is_color palette)
          \<and> agrees
              (random_dither_heap py_random np_random st image_in threshold_variance is_color palette)
              (random_dither py_random np_random r threshold_variance is_color palette))"
  using assms
  by (simp add: floyd_steinberg_dither_heap_def atkinson_dither_heap_def
      jarvis_judice_ninke_dither_heap_def ordered_dither_heap_def random_dither_heap_def
      floyd_steinberg_dither_def atkinson_dither_def jarvis_judice_ninke_dither_def
      ordered_dither_def random_dither_def dither_heap_input_kept dither_heap_agrees)

lemmas heap_eval_defs = floyd_steinberg_dither_heap_def dither_heap_def run_gray_heap_def
  return_uint8_def alloc_def on_gray_def on_cell_def astype_float32_def example_heap_def

theorem input_unchanged_witness:
  "0 < next_addr example_heap
   \<and> cells example_heap 0 = Some (Raster (Gray [[100, 150], [200, 50]]))
   \<and> fst (floyd_steinberg_dither_heap example_heap 0 1 False None) = Inr 3
   \<and> cells (snd (floyd_steinberg_dither_heap example_heap 0 1 False None)) 3
       = Some (Raster (Gray [[0, 255], [255, 0]]))
   \<and> cells (snd (floyd_steinberg_dither_heap example_heap 0 1 False None)) 0
       = Some (Raster (Gray [[100, 150], [200, 50]]))
   \<and> input_kept example_heap 0 (floyd_steinberg_dither_heap example_heap 0 1 False None)"
proof -
  have n: "0 < next_addr example_heap"
    by (simp add: example_heap_def)
  have c: "cells example_heap 0 = Some (Raster (Gray [[100, 150], [200, 50]]))"
    by (simp add: example_heap_def)
  have e: "fst (floyd_steinberg_dither_heap example_heap 0 1 False None) = Inr 3
      \<and> cells (snd (floyd_steinberg_dither_heap example_heap 0 1 False None)) 3
          = Some (Raster (Gray [[0, 255], [255, 0]]))"
    by (simp add: heap_eval_defs eval_defs)
  from input_unchanged [OF n, of 1 False None] c
  have k: "input_kept example_heap 0 (floyd_steinberg_dither_heap example_heap 0 1 False None)"
    by simp
  then have "cells (snd (floyd_steinberg_dither_heap example_heap 0 1 False None)) 0
       = Some (Raster (Gray [[100, 150], [200, 50]]))"
    using c by (simp add: input_kept_def)
  with n c e k show ?thesis by blast
qed

end
